theory Spec2Isabelle
  imports Main "HOL-Library.AList"
begin

section \<open>Data model\<close>

text \<open>
  The tables of \<^verbatim>\<open>models.py\<close>. A table with an integer primary key is a map from the key
  to the remaining columns; \<^verbatim>\<open>order_products\<close> is kept as the list of its rows in insertion
  order, which is the order of their auto-incremented keys and the order in which the
  relationship \<^verbatim>\<open>Order.products\<close> is read.

  Prices and amounts are Python floats. Their type is the parameter \<open>'p\<close>, of which only
  a zero and an addition are used and nothing is assumed; the product of a float and an
  integer quantity is the parameter \<open>fmul\<close> of the operations. The type of
  \<^verbatim>\<open>datetime\<close> values is the parameter \<open>'t\<close>, and \<^verbatim>\<open>datetime.timestamp\<close> is the parameter
  \<open>ts\<close>. Integer columns and Python integers are unbounded integers: the range of the
  database's integer type is not modelled.
\<close>

record 'p Product =
  p_name :: string
  p_description :: "string option"
  p_price :: 'p
  p_stock :: int

record ('p, 't) Order =
  o_name :: string
  o_description :: "string option"
  o_created_at :: 't
  o_total_amount :: 'p

record OrderProduct =
  op_id :: int
  op_order_id :: int
  op_product_id :: int
  op_quantity :: int

text \<open>The request schemas of \<^verbatim>\<open>schemas.py\<close>: no field carries a constraint.\<close>

record OrderProductBase =
  product_id :: int
  quantity :: int

record OrderCreate =
  req_name :: string
  req_description :: "string option"
  req_products :: "OrderProductBase list"

text \<open>The relational database as the session sees it, with its auto-increment counters.\<close>

record ('p, 't) Session =
  tbl_products :: "int \<rightharpoonup> 'p Product"
  tbl_orders :: "int \<rightharpoonup> ('p, 't) Order"
  tbl_order_products :: "OrderProduct list"
  next_order_id :: int
  next_order_product_id :: int
  next_product_id :: int

text \<open>The documents of the search index \<^verbatim>\<open>orders\<close>, keyed by the order id.\<close>

record 'p DocProduct =
  dp_name :: string
  dp_description :: "string option"
  dp_price :: 'p
  dp_quantity :: int

record ('p, 'c) Document =
  d_id :: int
  d_name :: string
  d_description :: "string option"
  d_created_at :: 'c
  d_total_amount :: 'p
  d_products :: "'p DocProduct list"

type_synonym ('p, 'c) orders_index = "int \<rightharpoonup> ('p, 'c) Document"

text \<open>
  The exceptions the operations raise: the two \<^verbatim>\<open>ValueError\<close>s of create (the same two
  conditions are \<^verbatim>\<open>HTTPException\<close>s 404 and 400 in update), the 404 for a missing order, and
  the \<^verbatim>\<open>AttributeError\<close> of an attribute read on \<^verbatim>\<open>None\<close>, and the 400 of a product
  that the database refuses.
\<close>

datatype error =
    ProductNotFound int
  | NotEnoughStock int
  | OrderNotFound
  | AttributeError
  | ProductCreationFailed

section \<open>Operations of crud.py\<close>

text \<open>
  The operations are modelled as run one at a time: every lock is free when an operation
  starts, so each \<^verbatim>\<open>setnx\<close> succeeds at once, and every lock taken is released in the
  \<^verbatim>\<open>finally\<close> of the same loop iteration. Each operation returns its result together with
  the database and the index it leaves behind; an exception before the commit leaves the
  database as it was.
\<close>

definition adjust_stock :: "int \<Rightarrow> int \<Rightarrow> (int \<rightharpoonup> 'p Product) \<Rightarrow> (int \<rightharpoonup> 'p Product)" where
  "adjust_stock pid d prods =
     (case prods pid of
        None \<Rightarrow> prods
      | Some product \<Rightarrow> prods(pid \<mapsto> product\<lparr>p_stock := p_stock product + d\<rparr>))"

definition order_lines :: "('p, 't) Session \<Rightarrow> int \<Rightarrow> OrderProduct list" where
  "order_lines db oid = filter (\<lambda>l. op_order_id l = oid) (tbl_order_products db)"

subsection \<open>index_order_in_meilisearch\<close>

fun doc_products :: "(int \<rightharpoonup> 'p Product) \<Rightarrow> OrderProduct list \<Rightarrow> 'p DocProduct list option" where
  "doc_products prods [] = Some []"
| "doc_products prods (l # ls) =
     (case prods (op_product_id l) of
        None \<Rightarrow> None
      | Some product \<Rightarrow>
          (case doc_products prods ls of
             None \<Rightarrow> None
           | Some ds \<Rightarrow>
               Some (\<lparr>dp_name = p_name product, dp_description = p_description product,
                      dp_price = p_price product, dp_quantity = op_quantity l\<rparr> # ds)))"

definition index_order_in_meilisearch ::
  "('t \<Rightarrow> 'c) \<Rightarrow> ('p, 't) Session \<Rightarrow> int \<Rightarrow> ('p, 'c) orders_index \<Rightarrow> ('p, 'c) orders_index option" where
  "index_order_in_meilisearch ts db oid idx =
     (case tbl_orders db oid of
        None \<Rightarrow> None
      | Some order \<Rightarrow>
          (case doc_products (tbl_products db) (order_lines db oid) of
             None \<Rightarrow> None
           | Some ds \<Rightarrow>
               Some (idx(oid \<mapsto>
                 \<lparr>d_id = oid, d_name = o_name order, d_description = o_description order,
                  d_created_at = ts (o_created_at order), d_total_amount = o_total_amount order,
                  d_products = ds\<rparr>))))"

subsection \<open>crud_create_order\<close>

text \<open>
  The first loop: \<open>product_updates\<close> holds the product rows by their key, in the order of
  the requested lines. The two commits (lines 57 and 65) are modelled as succeeding: a
  failure of the second one, which would leave the order row of the first without its lines,
  is outside the model.
\<close>

fun create_loop ::
  "('p \<Rightarrow> int \<Rightarrow> 'p) \<Rightarrow> (int \<rightharpoonup> 'p Product) \<Rightarrow> OrderProductBase list \<Rightarrow>
   (int \<times> int) list \<Rightarrow> 'p::plus \<Rightarrow> error + ((int \<times> int) list \<times> 'p)" where
  "create_loop fmul prods [] product_updates total_amount = Inr (product_updates, total_amount)"
| "create_loop fmul prods (item # items) product_updates total_amount =
     (case prods (product_id item) of
        None \<Rightarrow> Inl (ProductNotFound (product_id item))
      | Some product \<Rightarrow>
          if p_stock product < quantity item then Inl (NotEnoughStock (product_id item))
          else create_loop fmul prods items
                 (product_updates @ [(product_id item, quantity item)])
                 (total_amount + fmul (p_price product) (quantity item)))"

definition add_order_product :: "int \<Rightarrow> int \<Rightarrow> int \<Rightarrow> ('p, 't) Session \<Rightarrow> ('p, 't) Session" where
  "add_order_product oid pid q db =
     db\<lparr>tbl_order_products := tbl_order_products db @
           [\<lparr>op_id = next_order_product_id db, op_order_id = oid,
             op_product_id = pid, op_quantity = q\<rparr>],
        next_order_product_id := next_order_product_id db + 1\<rparr>"

definition reserve_line :: "int \<Rightarrow> int \<times> int \<Rightarrow> ('p, 't) Session \<Rightarrow> ('p, 't) Session" where
  "reserve_line oid u db =
     add_order_product oid (fst u) (snd u)
       (db\<lparr>tbl_products := adjust_stock (fst u) (- snd u) (tbl_products db)\<rparr>)"

definition crud_create_order ::
  "('p \<Rightarrow> int \<Rightarrow> 'p) \<Rightarrow> ('t \<Rightarrow> 'c) \<Rightarrow> 't \<Rightarrow> ('p::{zero,plus}, 't) Session \<Rightarrow> ('p, 'c) orders_index \<Rightarrow>
   OrderCreate \<Rightarrow> (error + int) \<times> ('p, 't) Session \<times> ('p, 'c) orders_index" where
  "crud_create_order fmul ts now db idx order =
     (case create_loop fmul (tbl_products db) (req_products order) [] 0 of
        Inl e \<Rightarrow> (Inl e, db, idx)
      | Inr (product_updates, total_amount) \<Rightarrow>
          (let new_id = next_order_id db;
               db1 = db\<lparr>tbl_orders := (tbl_orders db)(new_id \<mapsto>
                          \<lparr>o_name = req_name order, o_description = req_description order,
                           o_created_at = now, o_total_amount = total_amount\<rparr>),
                        next_order_id := new_id + 1\<rparr>;
               db2 = fold (reserve_line new_id) product_updates db1
           in (case index_order_in_meilisearch ts db2 new_id idx of
                 None \<Rightarrow> (Inl AttributeError, db2, idx)
               | Some idx' \<Rightarrow> (Inr new_id, db2, idx'))))"

subsection \<open>crud_delete_order\<close>

definition restock_line :: "OrderProduct \<Rightarrow> (int \<rightharpoonup> 'p Product) \<Rightarrow> (int \<rightharpoonup> 'p Product)" where
  "restock_line l prods = adjust_stock (op_product_id l) (op_quantity l) prods"

definition crud_delete_order ::
  "('p, 't) Session \<Rightarrow> ('p, 'c) orders_index \<Rightarrow> int \<Rightarrow>
   (error + int) \<times> ('p, 't) Session \<times> ('p, 'c) orders_index" where
  "crud_delete_order db idx order_id =
     (case tbl_orders db order_id of
        None \<Rightarrow> (Inl OrderNotFound, db, idx)
      | Some order \<Rightarrow>
          (Inr order_id,
           db\<lparr>tbl_products := fold restock_line (order_lines db order_id) (tbl_products db),
              tbl_order_products := filter (\<lambda>l. op_order_id l \<noteq> order_id) (tbl_order_products db),
              tbl_orders := (tbl_orders db)(order_id := None)\<rparr>,
           idx(order_id := None)))"

subsection \<open>crud_update_order\<close>

text \<open>
  A Python \<^verbatim>\<open>dict\<close> is an association list in insertion order: storing under a key that is
  present replaces the value in place, storing under a new key appends
  (\<^const>\<open>AList.update\<close>). A dict comprehension stores the pairs from left to right, so of
  two lines with the same product id the later quantity is kept.
\<close>

definition dict_of :: "('k \<times> 'v) list \<Rightarrow> ('k \<times> 'v) list" where
  "dict_of kvs = fold (\<lambda>kv d. AList.update (fst kv) (snd kv) d) kvs []"

definition dict_get :: "('k \<times> 'v) list \<Rightarrow> 'k \<Rightarrow> 'v \<Rightarrow> 'v" where
  "dict_get d k dflt = (case map_of d k of None \<Rightarrow> dflt | Some v \<Rightarrow> v)"

text \<open>The loop over the existing lines (lines 89 to 96) and the loop over the new ones (99 to 101).\<close>

definition changes_existing :: "(int \<times> int) list \<Rightarrow> int \<times> int \<Rightarrow> (int \<times> int) list \<Rightarrow> (int \<times> int) list" where
  "changes_existing new_products_map kv stock_changes =
     (let pid = fst kv; old_quantity = snd kv;
          new_quantity = dict_get new_products_map pid 0
      in if new_quantity < old_quantity
         then AList.update pid (old_quantity - new_quantity) stock_changes
         else if new_quantity > old_quantity
         then AList.update pid (new_quantity - old_quantity) stock_changes
         else stock_changes)"

definition changes_new :: "(int \<times> int) list \<Rightarrow> int \<times> int \<Rightarrow> (int \<times> int) list \<Rightarrow> (int \<times> int) list" where
  "changes_new existing_products_map kv stock_changes =
     (let pid = fst kv; new_quantity = snd kv
      in if map_of existing_products_map pid = None
         then AList.update pid new_quantity stock_changes
         else stock_changes)"

definition stock_changes_of :: "(int \<times> int) list \<Rightarrow> (int \<times> int) list \<Rightarrow> (int \<times> int) list" where
  "stock_changes_of existing_products_map new_products_map =
     fold (changes_new existing_products_map) new_products_map
       (fold (changes_existing new_products_map) existing_products_map [])"

text \<open>The validation loop (lines 104 to 119): the first entry that fails raises.\<close>

fun validate_changes :: "(int \<rightharpoonup> 'p Product) \<Rightarrow> (int \<times> int) list \<Rightarrow> error option" where
  "validate_changes prods [] = None"
| "validate_changes prods (kv # rest) =
     (case prods (fst kv) of
        None \<Rightarrow> Some (ProductNotFound (fst kv))
      | Some product \<Rightarrow>
          if snd kv > 0 \<and> p_stock product < snd kv then Some (NotEnoughStock (fst kv))
          else validate_changes prods rest)"

text \<open>
  The loop that applies the changes (lines 122 to 129); \<open>None\<close> is the
  \<^verbatim>\<open>AttributeError\<close> of \<^verbatim>\<open>product.stock\<close> on a missing row.
\<close>

fun apply_changes ::
  "(int \<times> int) list \<Rightarrow> (int \<times> int) list \<Rightarrow> (int \<times> int) list \<Rightarrow>
   (int \<rightharpoonup> 'p Product) \<Rightarrow> (int \<rightharpoonup> 'p Product) option" where
  "apply_changes existing_products_map new_products_map [] prods = Some prods"
| "apply_changes existing_products_map new_products_map (kv # rest) prods =
     (case prods (fst kv) of
        None \<Rightarrow> None
      | Some product \<Rightarrow>
          apply_changes existing_products_map new_products_map rest
            (case map_of existing_products_map (fst kv) of
               None \<Rightarrow> adjust_stock (fst kv) (- snd kv) prods
             | Some old_quantity \<Rightarrow>
                 if dict_get new_products_map (fst kv) 0 < old_quantity
                 then adjust_stock (fst kv) (snd kv) prods
                 else adjust_stock (fst kv) (- snd kv) prods))"

text \<open>The loop that recomputes the total and stores the new lines (lines 135 to 139).\<close>

fun replace_loop ::
  "('p \<Rightarrow> int \<Rightarrow> 'p) \<Rightarrow> int \<Rightarrow> OrderProductBase list \<Rightarrow> 'p::plus \<Rightarrow> ('p, 't) Session \<Rightarrow>
   ('p \<times> ('p, 't) Session) option" where
  "replace_loop fmul oid [] total_amount db = Some (total_amount, db)"
| "replace_loop fmul oid (item # items) total_amount db =
     (case tbl_products db (product_id item) of
        None \<Rightarrow> None
      | Some product \<Rightarrow>
          replace_loop fmul oid items
            (total_amount + fmul (p_price product) (quantity item))
            (add_order_product oid (product_id item) (quantity item) db))"

definition existing_map_of :: "('p, 't) Session \<Rightarrow> int \<Rightarrow> (int \<times> int) list" where
  "existing_map_of db oid = dict_of (map (\<lambda>l. (op_product_id l, op_quantity l)) (order_lines db oid))"

definition new_map_of :: "OrderCreate \<Rightarrow> (int \<times> int) list" where
  "new_map_of order_data = dict_of (map (\<lambda>item. (product_id item, quantity item)) (req_products order_data))"

definition crud_update_order ::
  "('p \<Rightarrow> int \<Rightarrow> 'p) \<Rightarrow> ('t \<Rightarrow> 'c) \<Rightarrow> ('p::{zero,plus}, 't) Session \<Rightarrow> ('p, 'c) orders_index \<Rightarrow>
   int \<Rightarrow> OrderCreate \<Rightarrow> (error + int) \<times> ('p, 't) Session \<times> ('p, 'c) orders_index" where
  "crud_update_order fmul ts db idx order_id order_data =
     (case tbl_orders db order_id of
        None \<Rightarrow> (Inl OrderNotFound, db, idx)
      | Some existing_order \<Rightarrow>
          (let existing_products_map = existing_map_of db order_id;
               new_products_map = new_map_of order_data;
               stock_changes = stock_changes_of existing_products_map new_products_map
           in case validate_changes (tbl_products db) stock_changes of
                Some e \<Rightarrow> (Inl e, db, idx)
              | None \<Rightarrow>
                  (case apply_changes existing_products_map new_products_map stock_changes
                          (tbl_products db) of
                     None \<Rightarrow> (Inl AttributeError, db, idx)
                   | Some prods \<Rightarrow>
                       (case replace_loop fmul order_id (req_products order_data) 0
                               (db\<lparr>tbl_products := prods,
                                   tbl_order_products :=
                                     filter (\<lambda>l. op_order_id l \<noteq> order_id) (tbl_order_products db)\<rparr>) of
                          None \<Rightarrow> (Inl AttributeError, db, idx)
                        | Some (total_amount, db2) \<Rightarrow>
                            (let db3 = db2\<lparr>tbl_orders := (tbl_orders db2)(order_id \<mapsto>
                                            existing_order\<lparr>o_name := req_name order_data,
                                                           o_description := req_description order_data,
                                                           o_total_amount := total_amount\<rparr>)\<rparr>
                             in case index_order_in_meilisearch ts db3 order_id idx of
                                  None \<Rightarrow> (Inl AttributeError, db3, idx)
                                | Some idx' \<Rightarrow> (Inr order_id, db3, idx'))))))"

subsection \<open>crud_create_product\<close>

text \<open>
  The row gets the next key. Whether the database accepts the row (the \<^verbatim>\<open>except\<close> branch
  is taken when it does not) is decided by the database server: it is the parameter
  \<open>accepted\<close>.
\<close>

definition crud_create_product ::
  "bool \<Rightarrow> ('p, 't) Session \<Rightarrow> 'p Product \<Rightarrow> (error + int) \<times> ('p, 't) Session" where
  "crud_create_product accepted db product =
     (if accepted
      then (Inr (next_product_id db),
            db\<lparr>tbl_products := (tbl_products db)(next_product_id db \<mapsto> product),
               next_product_id := next_product_id db + 1\<rparr>)
      else (Inl ProductCreationFailed, db))"

subsection \<open>crud_get_order_by_id\<close>

text \<open>The parameter \<open>fmt\<close> is \<^verbatim>\<open>str(datetime.fromtimestamp(_))\<close>.\<close>

definition crud_get_order_by_id ::
  "('c \<Rightarrow> string) \<Rightarrow> ('p, 'c) orders_index \<Rightarrow> int \<Rightarrow> error + ('p, string) Document" where
  "crud_get_order_by_id fmt idx order_id =
     (case idx order_id of
        None \<Rightarrow> Inl OrderNotFound
      | Some order \<Rightarrow>
          Inr \<lparr>d_id = d_id order, d_name = d_name order, d_description = d_description order,
               d_created_at = fmt (d_created_at order), d_total_amount = d_total_amount order,
               d_products = d_products order\<rparr>)"

section \<open>The order of the effects of crud_create_order\<close>

text \<open>
  The calls that \<^verbatim>\<open>crud_create_order\<close> makes on the lock store, the database session and the
  index, in program order, for a run in which every \<^verbatim>\<open>setnx\<close> succeeds at once. The first
  loop (lines 37 to 53) takes the lock of a line's product, sets its expiry, reads the row
  \<^verbatim>\<open>with_for_update\<close>, and releases the lock in its \<^verbatim>\<open>finally\<close>, whether the checks pass
  or raise. The order row is added and committed (lines 55 to 58); the second loop (lines 60
  to 63) decrements the stocks and adds the lines; then comes the second commit and the
  indexing (lines 65 to 68).
\<close>

datatype event =
    Acquire int
  | Expire int
  | SelectForUpdate int
  | Release int
  | AddOrder
  | Commit
  | DecrementStock int int
  | AddOrderProduct int int
  | IndexOrder

fun create_loop_events :: "(int \<rightharpoonup> 'p Product) \<Rightarrow> OrderProductBase list \<Rightarrow> event list" where
  "create_loop_events prods [] = []"
| "create_loop_events prods (item # items) =
     [Acquire (product_id item), Expire (product_id item), SelectForUpdate (product_id item)] @
     (case prods (product_id item) of
        None \<Rightarrow> [Release (product_id item)]
      | Some product \<Rightarrow>
          if p_stock product < quantity item then [Release (product_id item)]
          else Release (product_id item) # create_loop_events prods items)"

definition crud_create_order_events ::
  "('p \<Rightarrow> int \<Rightarrow> 'p) \<Rightarrow> (int \<rightharpoonup> 'p::{zero,plus} Product) \<Rightarrow> OrderCreate \<Rightarrow> event list" where
  "crud_create_order_events fmul prods order =
     (case create_loop fmul prods (req_products order) [] 0 of
        Inl e \<Rightarrow> create_loop_events prods (req_products order)
      | Inr (product_updates, total_amount) \<Rightarrow>
          create_loop_events prods (req_products order) @ [AddOrder, Commit] @
          concat (map (\<lambda>u. [DecrementStock (fst u) (snd u), AddOrderProduct (fst u) (snd u)])
                    product_updates) @
          [Commit, IndexOrder])"

text \<open>
  The locks held after an event, given those held before it.
\<close>

fun lock_step :: "event \<Rightarrow> int set \<Rightarrow> int set" where
  "lock_step (Acquire p) held = insert p held"
| "lock_step (Release p) held = held - {p}"
| "lock_step e held = held"

section \<open>Sequences of operations\<close>

text \<open>
  One operation on the database and the index; the state it leaves is kept whatever it
  returns. A sequence of operations is run one at a time, from left to right.
\<close>

datatype 't operation =
    CreateOrder 't OrderCreate
  | UpdateOrder int OrderCreate
  | DeleteOrder int

fun perform ::
  "('p \<Rightarrow> int \<Rightarrow> 'p) \<Rightarrow> ('t \<Rightarrow> 'c) \<Rightarrow> 't operation \<Rightarrow>
   ('p::{zero,plus}, 't) Session \<times> ('p, 'c) orders_index \<Rightarrow> ('p, 't) Session \<times> ('p, 'c) orders_index" where
  "perform fmul ts (CreateOrder now order) st = snd (crud_create_order fmul ts now (fst st) (snd st) order)"
| "perform fmul ts (UpdateOrder oid order) st = snd (crud_update_order fmul ts (fst st) (snd st) oid order)"
| "perform fmul ts (DeleteOrder oid) st = snd (crud_delete_order (fst st) (snd st) oid)"

definition run ::
  "('p \<Rightarrow> int \<Rightarrow> 'p) \<Rightarrow> ('t \<Rightarrow> 'c) \<Rightarrow> 't operation list \<Rightarrow>
   ('p::{zero,plus}, 't) Session \<times> ('p, 'c) orders_index \<Rightarrow> ('p, 't) Session \<times> ('p, 'c) orders_index" where
  "run fmul ts ops st = fold (perform fmul ts) ops st"

section \<open>Notions used in the statements\<close>

subsection \<open>Lines and quantities\<close>

text \<open>
  A requested line and a stored line as the pair of the product id and the quantity; the
  total quantity that a list of such pairs, or a list of stored lines, holds of product
  \<open>p\<close>; the rows that storing a list of pairs for order \<open>oid\<close> appends, numbered from \<open>n\<close>; and
  a product row with \<open>d\<close> added to its stock.
\<close>

definition item_pair :: "OrderProductBase \<Rightarrow> int \<times> int" where
  "item_pair item = (product_id item, quantity item)"

definition line_pair :: "OrderProduct \<Rightarrow> int \<times> int" where
  "line_pair l = (op_product_id l, op_quantity l)"

definition pairs_quantity :: "int \<Rightarrow> (int \<times> int) list \<Rightarrow> int" where
  "pairs_quantity p us = sum_list (map snd (filter (\<lambda>u. fst u = p) us))"

definition line_quantity :: "int \<Rightarrow> OrderProduct list \<Rightarrow> int" where
  "line_quantity p ls = sum_list (map op_quantity (filter (\<lambda>l. op_product_id l = p) ls))"

fun mk_lines :: "int \<Rightarrow> int \<Rightarrow> (int \<times> int) list \<Rightarrow> OrderProduct list" where
  "mk_lines oid n [] = []"
| "mk_lines oid n (u # us) =
     \<lparr>op_id = n, op_order_id = oid, op_product_id = fst u, op_quantity = snd u\<rparr> # mk_lines oid (n + 1) us"

definition add_to_stock :: "int \<Rightarrow> 'p Product \<Rightarrow> 'p Product" where
  "add_to_stock d product = product\<lparr>p_stock := p_stock product + d\<rparr>"

text \<open>
  The quantity of product \<open>p\<close> that the live orders hold: the sum of the quantities of the
  lines that reference \<open>p\<close> and belong to an order that has a row.
\<close>

definition reserved :: "('p, 't) Session \<Rightarrow> int \<Rightarrow> int" where
  "reserved db p =
     line_quantity p (filter (\<lambda>l. tbl_orders db (op_order_id l) \<noteq> None) (tbl_order_products db))"

text \<open>
  The signed amount that the loop applying the changes adds to the stock for one entry of
  \<open>stock_changes\<close>; the total that the two accumulating loops compute, from a starting
  amount; and the fields that update writes into the order row.
\<close>

definition signed_change :: "(int \<times> int) list \<Rightarrow> (int \<times> int) list \<Rightarrow> int \<times> int \<Rightarrow> int" where
  "signed_change ex nw kv =
     (case map_of ex (fst kv) of
        None \<Rightarrow> - snd kv
      | Some old_quantity \<Rightarrow> if dict_get nw (fst kv) 0 < old_quantity then snd kv else - snd kv)"

fun total_amount_of ::
  "('p \<Rightarrow> int \<Rightarrow> 'p) \<Rightarrow> (int \<rightharpoonup> 'p Product) \<Rightarrow> (int \<times> int) list \<Rightarrow> 'p::plus \<Rightarrow> 'p" where
  "total_amount_of fmul prods [] t = t"
| "total_amount_of fmul prods (u # us) t =
     total_amount_of fmul prods us
       (case prods (fst u) of None \<Rightarrow> t | Some product \<Rightarrow> t + fmul (p_price product) (snd u))"

definition renamed :: "OrderCreate \<Rightarrow> 'p \<Rightarrow> ('p, 't) Order \<Rightarrow> ('p, 't) Order" where
  "renamed order_data amount ord =
     ord\<lparr>o_name := req_name order_data, o_description := req_description order_data,
         o_total_amount := amount\<rparr>"

subsection \<open>Conditions on the database and on requests\<close>

text \<open>
  The auto-increment guarantee: the next order id is used by no order row and no line.
\<close>

definition fresh_order_id :: "('p, 't) Session \<Rightarrow> bool" where
  "fresh_order_id db \<longleftrightarrow>
     tbl_orders db (next_order_id db) = None \<and>
     list_all (\<lambda>l. op_order_id l \<noteq> next_order_id db) (tbl_order_products db)"

text \<open>
  A request without a repeated product id and without a negative quantity, and an operation
  whose request is such.
\<close>

definition request_plain :: "OrderCreate \<Rightarrow> bool" where
  "request_plain order \<longleftrightarrow>
     distinct (map product_id (req_products order)) \<and>
     list_all (\<lambda>item. 0 \<le> quantity item) (req_products order)"

fun operation_plain :: "'t operation \<Rightarrow> bool" where
  "operation_plain (CreateOrder now order) = request_plain order"
| "operation_plain (UpdateOrder oid order) = request_plain order"
| "operation_plain (DeleteOrder oid) = True"

text \<open>
  A database as such operations leave it: order ids lie below the counter, no stock and no
  line quantity is negative, and no order has two lines for one product.
\<close>

definition stock_ledger_ok :: "('p, 't) Session \<Rightarrow> bool" where
  "stock_ledger_ok db \<longleftrightarrow>
     list_all (\<lambda>l. op_order_id l < next_order_id db \<and> 0 \<le> op_quantity l) (tbl_order_products db) \<and>
     (\<forall>k. next_order_id db \<le> k \<longrightarrow> tbl_orders db k = None) \<and>
     (\<forall>oid. distinct (map op_product_id (order_lines db oid))) \<and>
     (\<forall>p pr. tbl_products db p = Some pr \<longrightarrow> 0 \<le> p_stock pr)"

text \<open>
  What one operation has to keep: that condition, and for every product the sum of its stock and the quantity the live orders hold of it.
\<close>

definition conserves :: "('p, 't) Session \<Rightarrow> ('p, 't) Session \<Rightarrow> bool" where
  "conserves db db' \<longleftrightarrow>
     stock_ledger_ok db' \<and>
     (\<forall>p pr. tbl_products db p = Some pr \<longrightarrow>
        (\<exists>pr'. tbl_products db' p = Some pr' \<and>
           p_stock pr' + reserved db' p = p_stock pr + reserved db p))"

text \<open>
  Two conditions on a database: every line references a product that exists; and the total
  amount of every order is the amount that the accumulating loops compute from the order's
  lines at the prices in the products table.
\<close>

definition lines_known :: "('p, 't) Session \<Rightarrow> bool" where
  "lines_known db \<longleftrightarrow>
     list_all (\<lambda>l. tbl_products db (op_product_id l) \<noteq> None) (tbl_order_products db)"

definition totals_current :: "('p \<Rightarrow> int \<Rightarrow> 'p) \<Rightarrow> ('p::{zero,plus}, 't) Session \<Rightarrow> bool" where
  "totals_current fmul db \<longleftrightarrow>
     (\<forall>oid ord. tbl_orders db oid = Some ord \<longrightarrow>
        o_total_amount ord =
          total_amount_of fmul (tbl_products db) (map line_pair (order_lines db oid)) 0)"

subsection \<open>Documents of the index\<close>

text \<open>
  A product entry of a document agrees with a stored line when it has the name, description
  and price of the product row the line references and the line's quantity; a document agrees
  with order \<open>oid\<close> of the database when it has the order's id, name, description, total
  amount and creation time (as \<open>ts\<close> converts it), and its product entries agree one by one
  with the order's lines.
\<close>

definition doc_line_agrees :: "(int \<rightharpoonup> 'p Product) \<Rightarrow> OrderProduct \<Rightarrow> 'p DocProduct \<Rightarrow> bool" where
  "doc_line_agrees prods l d \<longleftrightarrow>
     (\<exists>pr. prods (op_product_id l) = Some pr \<and>
        dp_name d = p_name pr \<and> dp_description d = p_description pr \<and>
        dp_price d = p_price pr \<and> dp_quantity d = op_quantity l)"

definition doc_agrees :: "('t \<Rightarrow> 'c) \<Rightarrow> ('p, 't) Session \<Rightarrow> int \<Rightarrow> ('p, 'c) Document \<Rightarrow> bool" where
  "doc_agrees ts db oid doc \<longleftrightarrow>
     (\<exists>ord. tbl_orders db oid = Some ord \<and>
        d_id doc = oid \<and> d_name doc = o_name ord \<and> d_description doc = o_description ord \<and>
        d_total_amount doc = o_total_amount ord \<and> d_created_at doc = ts (o_created_at ord) \<and>
        list_all2 (doc_line_agrees (tbl_products db)) (order_lines db oid) (d_products doc))"

section \<open>Example data\<close>

text \<open>
  Databases, requests and runs with integer prices, on which the statements are evaluated:
  a shop with two products and no order; a database with an order one of whose lines
  references a product that has no row; the order \<open>{A:3, B:2}\<close> and its update to
  \<open>{A:1, B:5, C:2}\<close>; an order of 3 units of a product whose stock is 1.
\<close>

definition shop_products :: "int \<rightharpoonup> int Product" where
  "shop_products =
     [1 \<mapsto> \<lparr>p_name = ''P1'', p_description = None, p_price = 10, p_stock = 5\<rparr>,
      2 \<mapsto> \<lparr>p_name = ''P2'', p_description = Some ''second'', p_price = 7, p_stock = 1\<rparr>]"

definition shop :: "(int, nat) Session" where
  "shop = \<lparr>tbl_products = shop_products, tbl_orders = Map.empty, tbl_order_products = [],
           next_order_id = 1, next_order_product_id = 1, next_product_id = 3\<rparr>"

definition line :: "int \<Rightarrow> int \<Rightarrow> OrderProductBase" where
  "line pid q = \<lparr>product_id = pid, quantity = q\<rparr>"

definition request :: "(int \<times> int) list \<Rightarrow> OrderCreate" where
  "request ls = \<lparr>req_name = ''O1'', req_description = None,
                req_products = map (\<lambda>pq. line (fst pq) (snd pq)) ls\<rparr>"

definition orphan_shop :: "(int, nat) Session" where
  "orphan_shop =
     \<lparr>tbl_products = [1 \<mapsto> \<lparr>p_name = ''P1'', p_description = None, p_price = 10, p_stock = 3\<rparr>],
      tbl_orders = [1 \<mapsto> \<lparr>o_name = ''O1'', o_description = None, o_created_at = 0,
                           o_total_amount = 20\<rparr>],
      tbl_order_products =
        [\<lparr>op_id = 1, op_order_id = 1, op_product_id = 1, op_quantity = 2\<rparr>,
         \<lparr>op_id = 2, op_order_id = 1, op_product_id = 9, op_quantity = 4\<rparr>],
      next_order_id = 2, next_order_product_id = 3, next_product_id = 2\<rparr>"

definition orphan_index :: "(int, nat) orders_index" where
  "orphan_index =
     [1 \<mapsto> \<lparr>d_id = 1, d_name = ''O1'', d_description = None, d_created_at = 0,
            d_total_amount = 20, d_products = []\<rparr>]"

definition abc_shop :: "(int, nat) Session" where
  "abc_shop =
     \<lparr>tbl_products =
        [1 \<mapsto> \<lparr>p_name = ''A'', p_description = None, p_price = 10, p_stock = 4\<rparr>,
         2 \<mapsto> \<lparr>p_name = ''B'', p_description = None, p_price = 7, p_stock = 10\<rparr>,
         3 \<mapsto> \<lparr>p_name = ''C'', p_description = None, p_price = 2, p_stock = 6\<rparr>],
      tbl_orders = [1 \<mapsto> \<lparr>o_name = ''O1'', o_description = None, o_created_at = 0,
                           o_total_amount = 44\<rparr>],
      tbl_order_products =
        [\<lparr>op_id = 1, op_order_id = 1, op_product_id = 1, op_quantity = 3\<rparr>,
         \<lparr>op_id = 2, op_order_id = 1, op_product_id = 2, op_quantity = 2\<rparr>],
      next_order_id = 2, next_order_product_id = 3, next_product_id = 4\<rparr>"

definition low_shop :: "(int, nat) Session" where
  "low_shop =
     \<lparr>tbl_products = [1 \<mapsto> \<lparr>p_name = ''A'', p_description = None, p_price = 10, p_stock = 1\<rparr>],
      tbl_orders = [1 \<mapsto> \<lparr>o_name = ''O1'', o_description = None, o_created_at = 0,
                           o_total_amount = 30\<rparr>],
      tbl_order_products = [\<lparr>op_id = 1, op_order_id = 1, op_product_id = 1, op_quantity = 3\<rparr>],
      next_order_id = 2, next_order_product_id = 2, next_product_id = 2\<rparr>"

definition created :: "(error + int) \<times> (int, nat) Session \<times> (int, nat) orders_index" where
  "created = crud_create_order (*) id 0 shop Map.empty (request [(1, 2), (2, 1)])"

definition abc_updated :: "(error + int) \<times> (int, nat) Session \<times> (int, nat) orders_index" where
  "abc_updated = crud_update_order (*) id abc_shop Map.empty 1 (request [(1, 1), (2, 5), (3, 2)])"

definition zero_created :: "(error + int) \<times> (int, nat) Session \<times> (int, nat) orders_index" where
  "zero_created = crud_create_order (*) id 0 shop Map.empty (request [(1, 0), (2, - 4)])"

definition twice_run :: "(int, nat) Session \<times> (int, nat) orders_index" where
  "twice_run = run (*) id [CreateOrder 0 (request [(1, 3), (1, 3)])] (shop, Map.empty)"

definition repeat_run :: "(int, nat) Session \<times> (int, nat) orders_index" where
  "repeat_run =
     run (*) id [CreateOrder 0 (request [(1, 2)]), UpdateOrder 1 (request [(1, 1), (1, 2)])]
       (shop, Map.empty)"

definition negative_run :: "(int, nat) Session \<times> (int, nat) orders_index" where
  "negative_run =
     run (*) id [CreateOrder 0 (request [(2, - 4)]), CreateOrder 0 (request [(2, 5)]), DeleteOrder 1]
       (shop, Map.empty)"

definition repeated_created :: "(error + int) \<times> (int, nat) Session \<times> (int, nat) orders_index" where
  "repeated_created = crud_create_order (*) id 0 shop Map.empty (request [(1, 1), (1, 2)])"

definition reordered_updated :: "(error + int) \<times> (int, nat) Session \<times> (int, nat) orders_index" where
  "reordered_updated =
     crud_update_order (*) id (fst (snd repeated_created)) (snd (snd repeated_created)) 1
       (request [(1, 2), (1, 1)])"

definition plain_ops :: "nat operation list" where
  "plain_ops = [CreateOrder 0 (request [(1, 2)]), UpdateOrder 1 (request [(1, 4)])]"

section \<open>Create: all or nothing\<close>

lemma create_loop_offending:
  "\<exists>item\<in>set items. prods (product_id item) = None \<or>
       (\<exists>pr. prods (product_id item) = Some pr \<and> p_stock pr < quantity item)
   \<Longrightarrow> \<exists>item\<in>set items.
           (prods (product_id item) = None \<and>
              create_loop fmul prods items pu t = Inl (ProductNotFound (product_id item)))
         \<or> (\<exists>pr. prods (product_id item) = Some pr \<and> p_stock pr < quantity item \<and>
              create_loop fmul prods items pu t = Inl (NotEnoughStock (product_id item)))"
proof (induction items arbitrary: pu t)
  case Nil
  then show ?case by simp
next
  case (Cons item items)
  show ?case
  proof (cases "prods (product_id item)")
    case None
    then show ?thesis by simp
  next
    case (Some pr)
    show ?thesis
    proof (cases "p_stock pr < quantity item")
      case True
      with Some show ?thesis by simp
    next
      case False
      with Some Cons.prems have "\<exists>item\<in>set items. prods (product_id item) = None \<or>
       (\<exists>pr. prods (product_id item) = Some pr \<and> p_stock pr < quantity item)" by auto
      from Cons.IH[OF this] Some False show ?thesis by auto
    qed
  qed
qed

text \<open>
  C5. When some requested line of create-order names a product that does not exist, or one
  whose stock is below the requested quantity, the operation raises an error that names
  the product of such a line, and the database and the index are left exactly as they
  were: no order row, no order line, and no change of any product's stock.
\<close>

theorem create_order_all_or_nothing:
  assumes "\<exists>item\<in>set (req_products order). tbl_products db (product_id item) = None \<or>
       (\<exists>pr. tbl_products db (product_id item) = Some pr \<and> p_stock pr < quantity item)"
  shows "\<exists>item\<in>set (req_products order).
           (tbl_products db (product_id item) = None \<and>
              crud_create_order fmul ts now db idx order =
                (Inl (ProductNotFound (product_id item)), db, idx))
         \<or> (\<exists>pr. tbl_products db (product_id item) = Some pr \<and> p_stock pr < quantity item \<and>
              crud_create_order fmul ts now db idx order =
                (Inl (NotEnoughStock (product_id item)), db, idx))"
proof -
  from create_loop_offending[OF assms, of fmul "[]" 0]
  obtain item where item: "item \<in> set (req_products order)"
    and c: "(tbl_products db (product_id item) = None \<and>
              create_loop fmul (tbl_products db) (req_products order) [] 0 =
                Inl (ProductNotFound (product_id item)))
         \<or> (\<exists>pr. tbl_products db (product_id item) = Some pr \<and> p_stock pr < quantity item \<and>
              create_loop fmul (tbl_products db) (req_products order) [] 0 =
                Inl (NotEnoughStock (product_id item)))"
    by blast
  from c have "(tbl_products db (product_id item) = None \<and>
              crud_create_order fmul ts now db idx order =
                (Inl (ProductNotFound (product_id item)), db, idx))
         \<or> (\<exists>pr. tbl_products db (product_id item) = Some pr \<and> p_stock pr < quantity item \<and>
              crud_create_order fmul ts now db idx order =
                (Inl (NotEnoughStock (product_id item)), db, idx))"
    by (auto simp: crud_create_order_def)
  with item show ?thesis by blast
qed

theorem create_order_all_or_nothing_witness:
  "(\<exists>item\<in>set (req_products (request [(1, 2), (2, 3)])).
      tbl_products shop (product_id item) = None \<or>
      (\<exists>pr. tbl_products shop (product_id item) = Some pr \<and> p_stock pr < quantity item)) \<and>
   crud_create_order (*) id 0 shop Map.empty (request [(1, 2), (2, 3)]) =
     (Inl (NotEnoughStock 2), shop, Map.empty :: (int, nat) orders_index)"
proof -
  have h: "\<exists>item\<in>set (req_products (request [(1, 2), (2, 3)])).
      tbl_products shop (product_id item) = None \<or>
      (\<exists>pr. tbl_products shop (product_id item) = Some pr \<and> p_stock pr < quantity item)"
    by (simp add: request_def line_def shop_def shop_products_def)
  from create_order_all_or_nothing[OF h, of "(*)" id 0 Map.empty] h show ?thesis
    by (auto simp: request_def line_def shop_def shop_products_def)
qed

section \<open>Stock adjustments\<close>

lemma adjust_stock_apply:
  "adjust_stock pid d prods p =
     (if p = pid then map_option (add_to_stock d) (prods p) else prods p)"
  by (simp add: adjust_stock_def add_to_stock_def split: option.splits)

lemma add_to_stock_0 [simp]: "add_to_stock 0 product = product"
  by (simp add: add_to_stock_def)

lemma add_to_stock_add [simp]: "add_to_stock a (add_to_stock b product) = add_to_stock (a + b) product"
  by (simp add: add_to_stock_def)

lemma line_quantity_Nil [simp]: "line_quantity p [] = 0"
  by (simp add: line_quantity_def)

lemma line_quantity_Cons [simp]:
  "line_quantity p (l # ls) = (if op_product_id l = p then op_quantity l else 0) + line_quantity p ls"
  by (simp add: line_quantity_def)

lemma restock_line_apply:
  "restock_line l prods p =
     (if p = op_product_id l then map_option (add_to_stock (op_quantity l)) (prods p) else prods p)"
  by (simp add: restock_line_def adjust_stock_apply)

lemma fold_restock_line_apply:
  "fold restock_line ls prods p = map_option (add_to_stock (line_quantity p ls)) (prods p)"
proof (induction ls arbitrary: prods)
  case Nil
  show ?case by (simp add: option.map_ident map_option.identity)
next
  case (Cons l ls)
  have "fold restock_line (l # ls) prods p = fold restock_line ls (restock_line l prods) p"
    by simp
  also have "\<dots> = map_option (add_to_stock (line_quantity p ls)) (restock_line l prods p)"
    by (rule Cons.IH)
  also have "\<dots> = map_option (add_to_stock (line_quantity p (l # ls))) (prods p)"
    by (cases "prods p") (auto simp: restock_line_apply add.commute)
  finally show ?case .
qed

section \<open>Delete with a line whose product row is missing\<close>

text \<open>
  C10. Deleting an existing order one of whose lines references a product id with no
  product row succeeds: that product stays absent (its restock is skipped), every product
  that exists gets back the quantities of the order's lines that reference it, and the
  order row, all its lines and its document in the index are removed; the lines of the
  other orders stay.
\<close>

theorem delete_order_skips_missing_product:
  assumes "tbl_orders db oid = Some ord"
    and "l \<in> set (order_lines db oid)"
    and "tbl_products db (op_product_id l) = None"
  shows "\<exists>db' idx'. crud_delete_order db idx oid = (Inr oid, db', idx') \<and>
     tbl_products db' (op_product_id l) = None \<and>
     (\<forall>p pr. tbl_products db p = Some pr \<longrightarrow>
        tbl_products db' p =
          Some (pr\<lparr>p_stock := p_stock pr + line_quantity p (order_lines db oid)\<rparr>)) \<and>
     tbl_orders db' = (tbl_orders db)(oid := None) \<and>
     order_lines db' oid = [] \<and>
     (\<forall>oid'. oid' \<noteq> oid \<longrightarrow> order_lines db' oid' = order_lines db oid') \<and>
     idx' = idx(oid := None)"
  using assms
  by (auto simp: crud_delete_order_def fold_restock_line_apply add_to_stock_def order_lines_def
      filter_id_conv intro: filter_cong)

theorem delete_order_skips_missing_product_witness:
  "tbl_orders orphan_shop 1 \<noteq> None \<and>
   \<lparr>op_id = 2, op_order_id = 1, op_product_id = 9, op_quantity = 4\<rparr> \<in> set (order_lines orphan_shop 1) \<and>
   tbl_products orphan_shop 9 = None \<and>
   fst (crud_delete_order orphan_shop orphan_index 1) = Inr 1 \<and>
   tbl_products (fst (snd (crud_delete_order orphan_shop orphan_index 1))) 9 = None \<and>
   map_option p_stock (tbl_products (fst (snd (crud_delete_order orphan_shop orphan_index 1))) 1) = Some 5 \<and>
   tbl_orders (fst (snd (crud_delete_order orphan_shop orphan_index 1))) 1 = None \<and>
   tbl_order_products (fst (snd (crud_delete_order orphan_shop orphan_index 1))) = [] \<and>
   snd (snd (crud_delete_order orphan_shop orphan_index 1)) 1 = None"
proof -
  have h1: "tbl_orders orphan_shop 1 = Some \<lparr>o_name = ''O1'', o_description = None, o_created_at = 0,
                           o_total_amount = 20\<rparr>"
    by (simp add: orphan_shop_def)
  have h2: "\<lparr>op_id = 2, op_order_id = 1, op_product_id = 9, op_quantity = 4\<rparr> \<in> set (order_lines orphan_shop 1)"
    by (simp add: orphan_shop_def order_lines_def)
  have h3: "tbl_products orphan_shop (op_product_id \<lparr>op_id = 2, op_order_id = 1, op_product_id = 9, op_quantity = 4\<rparr>) = None"
    by (simp add: orphan_shop_def)
  from delete_order_skips_missing_product[OF h1 h2 h3, of orphan_index] h1 h2 h3
  show ?thesis
    by (auto simp: crud_delete_order_def orphan_shop_def orphan_index_def order_lines_def
        restock_line_def adjust_stock_def)
qed

section \<open>Create followed by delete\<close>

lemma pairs_quantity_Nil [simp]: "pairs_quantity p [] = 0"
  by (simp add: pairs_quantity_def)

lemma pairs_quantity_Cons [simp]:
  "pairs_quantity p (u # us) = (if fst u = p then snd u else 0) + pairs_quantity p us"
  by (simp add: pairs_quantity_def)

lemma pairs_quantity_append [simp]:
  "pairs_quantity p (us @ vs) = pairs_quantity p us + pairs_quantity p vs"
  by (simp add: pairs_quantity_def)

lemma line_quantity_append [simp]:
  "line_quantity p (ls @ ms) = line_quantity p ls + line_quantity p ms"
  by (simp add: line_quantity_def)

lemma line_quantity_mk_lines [simp]: "line_quantity p (mk_lines oid n us) = pairs_quantity p us"
  by (induction us arbitrary: n) simp_all

lemma filter_mk_lines_same [simp]: "filter (\<lambda>l. op_order_id l = oid) (mk_lines oid n us) = mk_lines oid n us"
  by (induction us arbitrary: n) simp_all

lemma filter_mk_lines_other [simp]: "filter (\<lambda>l. op_order_id l \<noteq> oid) (mk_lines oid n us) = []"
  by (induction us arbitrary: n) simp_all

lemma filter_mk_lines_other' [simp]:
  "oid' \<noteq> oid \<Longrightarrow> filter (\<lambda>l. op_order_id l = oid') (mk_lines oid n us) = []"
  by (induction us arbitrary: n) simp_all

lemma map_pair_mk_lines [simp]:
  "map (\<lambda>l. (op_product_id l, op_quantity l)) (mk_lines oid n us) = us"
  by (induction us arbitrary: n) simp_all

lemma create_loop_success:
  "create_loop fmul prods items pu t = Inr (pu', t') \<Longrightarrow>
     pu' = pu @ map item_pair items \<and>
     list_all (\<lambda>item. \<exists>pr. prods (product_id item) = Some pr \<and> quantity item \<le> p_stock pr) items"
proof (induction items arbitrary: pu t)
  case Nil
  then show ?case by simp
next
  case (Cons item items)
  from Cons.prems obtain pr where pr: "prods (product_id item) = Some pr"
    and ok: "\<not> p_stock pr < quantity item"
    and rest: "create_loop fmul prods items (pu @ [(product_id item, quantity item)])
                 (t + fmul (p_price pr) (quantity item)) = Inr (pu', t')"
    by (auto split: option.splits if_splits)
  from Cons.IH[OF rest] pr ok show ?case by (simp add: item_pair_def)
qed

lemma reserve_line_products:
  "tbl_products (reserve_line oid u db) = adjust_stock (fst u) (- snd u) (tbl_products db)"
  by (simp add: reserve_line_def add_order_product_def)

lemma fold_reserve_line_fields:
  "tbl_orders (fold (reserve_line oid) us db) = tbl_orders db \<and>
   next_order_id (fold (reserve_line oid) us db) = next_order_id db \<and>
   tbl_order_products (fold (reserve_line oid) us db) =
     tbl_order_products db @ mk_lines oid (next_order_product_id db) us \<and>
   next_order_product_id (fold (reserve_line oid) us db) = next_order_product_id db + int (length us) \<and>
   next_product_id (fold (reserve_line oid) us db) = next_product_id db"
proof (induction us arbitrary: db)
  case Nil
  show ?case by simp
next
  case (Cons u us)
  show ?case
    by (simp add: Cons.IH) (simp add: reserve_line_def add_order_product_def)
qed

lemma fold_reserve_line_products:
  "tbl_products (fold (reserve_line oid) us db) p =
     map_option (add_to_stock (- pairs_quantity p us)) (tbl_products db p)"
proof (induction us arbitrary: db)
  case Nil
  show ?case by (simp add: option.map_ident)
next
  case (Cons u us)
  have "tbl_products (fold (reserve_line oid) (u # us) db) p =
        tbl_products (fold (reserve_line oid) us (reserve_line oid u db)) p"
    by simp
  also have "\<dots> = map_option (add_to_stock (- pairs_quantity p us))
                      (tbl_products (reserve_line oid u db) p)"
    by (rule Cons.IH)
  also have "\<dots> = map_option (add_to_stock (- pairs_quantity p (u # us))) (tbl_products db p)"
    by (cases "tbl_products db p") (auto simp: reserve_line_products adjust_stock_apply add_to_stock_def)
  finally show ?case .
qed

lemma create_order_result:
  assumes "crud_create_order fmul ts now db idx order = (Inr oid, db1, idx1)"
  shows "oid = next_order_id db"
    and "\<exists>total. create_loop fmul (tbl_products db) (req_products order) [] 0 =
                   Inr (map item_pair (req_products order), total) \<and>
                 tbl_orders db1 = (tbl_orders db)(oid \<mapsto>
                   \<lparr>o_name = req_name order, o_description = req_description order,
                    o_created_at = now, o_total_amount = total\<rparr>)"
    and "tbl_order_products db1 =
           tbl_order_products db @
           mk_lines oid (next_order_product_id db) (map item_pair (req_products order))"
    and "tbl_products db1 p =
           map_option (add_to_stock (- pairs_quantity p (map item_pair (req_products order))))
             (tbl_products db p)"
    and "index_order_in_meilisearch ts db1 oid idx = Some idx1"
    and "next_order_id db1 = oid + 1"
proof -
  from assms obtain pu total where
    loop: "create_loop fmul (tbl_products db) (req_products order) [] 0 = Inr (pu, total)"
    by (auto simp: crud_create_order_def split: sum.splits)
  from create_loop_success[OF loop] have pu: "pu = map item_pair (req_products order)"
    by simp
  define db0 where "db0 = db\<lparr>tbl_orders := (tbl_orders db)(next_order_id db \<mapsto>
                          \<lparr>o_name = req_name order, o_description = req_description order,
                           o_created_at = now, o_total_amount = total\<rparr>),
                        next_order_id := next_order_id db + 1\<rparr>"
  from assms loop have oid: "oid = next_order_id db"
    and db1: "db1 = fold (reserve_line (next_order_id db)) pu db0"
    and ix: "index_order_in_meilisearch ts db1 oid idx = Some idx1"
    by (auto simp: crud_create_order_def Let_def db0_def split: option.splits)
  show "oid = next_order_id db" by (rule oid)
  show "\<exists>total. create_loop fmul (tbl_products db) (req_products order) [] 0 =
                   Inr (map item_pair (req_products order), total) \<and>
                 tbl_orders db1 = (tbl_orders db)(oid \<mapsto>
                   \<lparr>o_name = req_name order, o_description = req_description order,
                    o_created_at = now, o_total_amount = total\<rparr>)"
    using loop pu by (simp add: db1 oid fold_reserve_line_fields db0_def)
  show "tbl_order_products db1 =
           tbl_order_products db @
           mk_lines oid (next_order_product_id db) (map item_pair (req_products order))"
    by (simp add: db1 oid pu fold_reserve_line_fields db0_def)
  show "tbl_products db1 p =
           map_option (add_to_stock (- pairs_quantity p (map item_pair (req_products order))))
             (tbl_products db p)"
    by (simp add: db1 pu fold_reserve_line_products db0_def)
  show "index_order_in_meilisearch ts db1 oid idx = Some idx1" by (rule ix)
  show "next_order_id db1 = oid + 1"
    by (simp add: db1 oid fold_reserve_line_fields db0_def)
qed

text \<open>
  C7. When an order has been created with success and is deleted immediately afterwards, the
  delete succeeds and the products table is again exactly the one before the create (so
  every product has its stock \<open>S\<close> back), the orders table and the table of order lines are
  the ones before the create (the order row and all its lines are gone), and the index has
  no document under the order's id.
\<close>

theorem delete_reverses_create:
  assumes "fresh_order_id db"
    and "crud_create_order fmul ts now db idx order = (Inr oid, db1, idx1)"
  shows "\<exists>db2 idx2. crud_delete_order db1 idx1 oid = (Inr oid, db2, idx2) \<and>
           tbl_products db2 = tbl_products db \<and>
           tbl_orders db2 = tbl_orders db \<and>
           tbl_order_products db2 = tbl_order_products db \<and>
           idx2 oid = None"
proof -
  note r = create_order_result[OF assms(2)]
  from assms(1) r(1) have none: "tbl_orders db oid = None"
    and old: "filter (\<lambda>l. op_order_id l = oid) (tbl_order_products db) = []"
    and old': "filter (\<lambda>l. op_order_id l \<noteq> oid) (tbl_order_products db) = tbl_order_products db"
    by (auto simp: fresh_order_id_def list_all_iff filter_empty_conv filter_id_conv)
  from r(2) obtain total where
    orders: "tbl_orders db1 = (tbl_orders db)(oid \<mapsto>
                   \<lparr>o_name = req_name order, o_description = req_description order,
                    o_created_at = now, o_total_amount = total\<rparr>)"
    by blast
  have lines: "order_lines db1 oid =
      mk_lines oid (next_order_product_id db) (map item_pair (req_products order))"
    by (simp add: order_lines_def r(3) old)
  have prods: "fold restock_line (order_lines db1 oid) (tbl_products db1) = tbl_products db"
  proof
    fix p
    show "fold restock_line (order_lines db1 oid) (tbl_products db1) p = tbl_products db p"
      by (cases "tbl_products db p") (simp_all add: fold_restock_line_apply lines r(4))
  qed
  have "tbl_orders db1 oid \<noteq> None" by (simp add: orders)
  then show ?thesis
    using none by (auto simp: crud_delete_order_def prods orders r(3) old')
qed

lemma created_value:
  "created =
     (Inr 1,
      \<lparr>tbl_products =
         [1 \<mapsto> \<lparr>p_name = ''P1'', p_description = None, p_price = 10, p_stock = 3\<rparr>,
          2 \<mapsto> \<lparr>p_name = ''P2'', p_description = Some ''second'', p_price = 7, p_stock = 0\<rparr>],
       tbl_orders = [1 \<mapsto> \<lparr>o_name = ''O1'', o_description = None, o_created_at = 0,
                            o_total_amount = 27\<rparr>],
       tbl_order_products =
         [\<lparr>op_id = 1, op_order_id = 1, op_product_id = 1, op_quantity = 2\<rparr>,
          \<lparr>op_id = 2, op_order_id = 1, op_product_id = 2, op_quantity = 1\<rparr>],
       next_order_id = 2, next_order_product_id = 3, next_product_id = 3\<rparr>,
      [1 \<mapsto> \<lparr>d_id = 1, d_name = ''O1'', d_description = None, d_created_at = 0,
             d_total_amount = 27,
             d_products =
               [\<lparr>dp_name = ''P1'', dp_description = None, dp_price = 10, dp_quantity = 2\<rparr>,
                \<lparr>dp_name = ''P2'', dp_description = Some ''second'', dp_price = 7, dp_quantity = 1\<rparr>]\<rparr>])"
  by (simp add: created_def crud_create_order_def shop_def shop_products_def request_def line_def
      reserve_line_def add_order_product_def adjust_stock_def index_order_in_meilisearch_def
      order_lines_def fun_upd_twist)

theorem delete_reverses_create_witness:
  "fresh_order_id shop \<and>
   fst created = Inr 1 \<and>
   map_option p_stock (tbl_products (fst (snd created)) 1) = Some 3 \<and>
   map_option p_stock (tbl_products shop 1) = Some 5 \<and>
   fst (crud_delete_order (fst (snd created)) (snd (snd created)) 1) = Inr 1 \<and>
   tbl_products (fst (snd (crud_delete_order (fst (snd created)) (snd (snd created)) 1))) =
     tbl_products shop \<and>
   tbl_orders (fst (snd (crud_delete_order (fst (snd created)) (snd (snd created)) 1))) =
     tbl_orders shop \<and>
   tbl_order_products (fst (snd (crud_delete_order (fst (snd created)) (snd (snd created)) 1))) =
     tbl_order_products shop \<and>
   snd (snd (crud_delete_order (fst (snd created)) (snd (snd created)) 1)) 1 = None"
proof -
  have h1: "fresh_order_id shop"
    by (simp add: fresh_order_id_def shop_def)
  have h2: "crud_create_order (*) id 0 shop Map.empty (request [(1, 2), (2, 1)]) =
              (Inr 1, fst (snd created), snd (snd created))"
    unfolding created_def[symmetric] by (simp add: created_value)
  have h3: "map_option p_stock (tbl_products (fst (snd created)) 1) = Some 3"
    by (simp add: created_value)
  have h4: "map_option p_stock (tbl_products shop 1) = Some 5"
    by (simp add: shop_def shop_products_def)
  have h5: "fst created = Inr 1"
    by (simp add: created_value)
  from delete_reverses_create[OF h1 h2] h1 h3 h4 h5 show ?thesis
    by auto
qed

section \<open>Dictionaries and the stock changes of update\<close>

lemma dict_fold_distinct:
  "distinct (map fst acc) \<Longrightarrow>
   distinct (map fst (fold (\<lambda>kv d. AList.update (fst kv) (snd kv) d) kvs acc))"
  by (induction kvs arbitrary: acc) (simp_all add: distinct_update)

lemma dict_of_distinct [simp]: "distinct (map fst (dict_of kvs))"
  by (simp add: dict_of_def dict_fold_distinct)

lemma dict_fold_map_of:
  "map_of (fold (\<lambda>kv d. AList.update (fst kv) (snd kv) d) kvs acc) p =
     (case map_of (rev kvs) p of None \<Rightarrow> map_of acc p | Some v \<Rightarrow> Some v)"
proof (induction kvs arbitrary: acc)
  case Nil
  show ?case by simp
next
  case (Cons kv kvs)
  show ?case
    by (simp add: Cons.IH update_conv' map_add_def split: option.splits)
qed

lemma dict_of_map_of: "map_of (dict_of kvs) p = map_of (rev kvs) p"
  by (simp add: dict_of_def dict_fold_map_of split: option.splits)

lemma map_of_rev_distinct: "distinct (map fst kvs) \<Longrightarrow> map_of (rev kvs) = map_of kvs"
  by (rule map_of_inject_set[THEN iffD2]) (simp_all add: rev_map[symmetric])

lemma pairs_quantity_distinct:
  "distinct (map fst kvs) \<Longrightarrow>
   pairs_quantity p kvs = (case map_of kvs p of None \<Rightarrow> 0 | Some q \<Rightarrow> q)"
proof (induction kvs)
  case Nil
  show ?case by simp
next
  case (Cons kv kvs)
  then have "fst kv = p \<Longrightarrow> map_of kvs p = None"
    by (auto simp: map_of_eq_None_iff)
  with Cons show ?case by (cases kv) (auto split: option.splits)
qed

lemma dict_get_dict_of_distinct:
  "distinct (map fst kvs) \<Longrightarrow> dict_get (dict_of kvs) p 0 = pairs_quantity p kvs"
  by (simp add: dict_get_def dict_of_map_of map_of_rev_distinct pairs_quantity_distinct)

lemma changes_existing_distinct:
  "distinct (map fst acc) \<Longrightarrow> distinct (map fst (fold (changes_existing nw) ex acc))"
  by (induction ex arbitrary: acc) (simp_all add: changes_existing_def Let_def distinct_update)

lemma changes_new_distinct:
  "distinct (map fst acc) \<Longrightarrow> distinct (map fst (fold (changes_new ex) nw acc))"
  by (induction nw arbitrary: acc) (simp_all add: changes_new_def Let_def distinct_update)

lemma stock_changes_distinct [simp]: "distinct (map fst (stock_changes_of ex nw))"
  by (simp add: stock_changes_of_def changes_new_distinct changes_existing_distinct)

lemma changes_existing_map_of:
  "distinct (map fst ex) \<Longrightarrow>
   map_of (fold (changes_existing nw) ex acc) p =
     (case map_of ex p of
        None \<Rightarrow> map_of acc p
      | Some old \<Rightarrow>
          if dict_get nw p 0 < old then Some (old - dict_get nw p 0)
          else if old < dict_get nw p 0 then Some (dict_get nw p 0 - old)
          else map_of acc p)"
proof (induction ex arbitrary: acc)
  case Nil
  show ?case by simp
next
  case (Cons kv ex)
  from Cons.prems have d: "distinct (map fst ex)" and n: "map_of ex (fst kv) = None"
    by (auto simp: map_of_eq_None_iff)
  have "map_of (fold (changes_existing nw) (kv # ex) acc) p =
        map_of (fold (changes_existing nw) ex (changes_existing nw kv acc)) p"
    by simp
  also have "\<dots> =
     (case map_of ex p of
        None \<Rightarrow> map_of (changes_existing nw kv acc) p
      | Some old \<Rightarrow>
          if dict_get nw p 0 < old then Some (old - dict_get nw p 0)
          else if old < dict_get nw p 0 then Some (dict_get nw p 0 - old)
          else map_of (changes_existing nw kv acc) p)"
    by (rule Cons.IH[OF d])
  also have "\<dots> =
     (case map_of (kv # ex) p of
        None \<Rightarrow> map_of acc p
      | Some old \<Rightarrow>
          if dict_get nw p 0 < old then Some (old - dict_get nw p 0)
          else if old < dict_get nw p 0 then Some (dict_get nw p 0 - old)
          else map_of acc p)"
    using n by (cases kv) (auto simp: changes_existing_def Let_def update_conv' split: option.splits)
  finally show ?case .
qed

lemma changes_new_map_of:
  "distinct (map fst nw) \<Longrightarrow>
   map_of (fold (changes_new ex) nw acc) p =
     (case map_of nw p of
        None \<Rightarrow> map_of acc p
      | Some new \<Rightarrow> if map_of ex p = None then Some new else map_of acc p)"
proof (induction nw arbitrary: acc)
  case Nil
  show ?case by simp
next
  case (Cons kv nw)
  from Cons.prems have d: "distinct (map fst nw)" and n: "map_of nw (fst kv) = None"
    by (auto simp: map_of_eq_None_iff)
  have "map_of (fold (changes_new ex) (kv # nw) acc) p =
        map_of (fold (changes_new ex) nw (changes_new ex kv acc)) p"
    by simp
  also have "\<dots> =
     (case map_of nw p of
        None \<Rightarrow> map_of (changes_new ex kv acc) p
      | Some new \<Rightarrow> if map_of ex p = None then Some new else map_of (changes_new ex kv acc) p)"
    by (rule Cons.IH[OF d])
  also have "\<dots> =
     (case map_of (kv # nw) p of
        None \<Rightarrow> map_of acc p
      | Some new \<Rightarrow> if map_of ex p = None then Some new else map_of acc p)"
    using n by (cases kv) (auto simp: changes_new_def Let_def update_conv' split: option.splits)
  finally show ?case .
qed

lemma stock_changes_map_of:
  assumes "distinct (map fst ex)" and "distinct (map fst nw)"
  shows "map_of (stock_changes_of ex nw) p =
     (case map_of ex p of
        None \<Rightarrow> map_of nw p
      | Some old \<Rightarrow>
          if dict_get nw p 0 < old then Some (old - dict_get nw p 0)
          else if old < dict_get nw p 0 then Some (dict_get nw p 0 - old)
          else None)"
  by (simp add: stock_changes_of_def changes_new_map_of[OF assms(2)]
      changes_existing_map_of[OF assms(1)] split: option.splits)

lemma total_amount_of_cong:
  "(\<And>p. map_option p_price (prods p) = map_option p_price (prods' p)) \<Longrightarrow>
   total_amount_of fmul prods us t = total_amount_of fmul prods' us t"
proof (induction us arbitrary: t)
  case Nil
  show ?case by simp
next
  case (Cons u us)
  from Cons.prems[of "fst u"]
  have "(case prods (fst u) of None \<Rightarrow> t | Some product \<Rightarrow> t + fmul (p_price product) (snd u)) =
        (case prods' (fst u) of None \<Rightarrow> t | Some product \<Rightarrow> t + fmul (p_price product) (snd u))"
    by (auto split: option.splits)
  with Cons.IH[OF Cons.prems] show ?case by simp
qed

lemma create_loop_total:
  "create_loop fmul prods items pu t = Inr (pu', t') \<Longrightarrow>
     t' = total_amount_of fmul prods (map item_pair items) t"
proof (induction items arbitrary: pu t)
  case Nil
  then show ?case by simp
next
  case (Cons item items)
  from Cons.prems obtain pr where pr: "prods (product_id item) = Some pr"
    and rest: "create_loop fmul prods items (pu @ [(product_id item, quantity item)])
                 (t + fmul (p_price pr) (quantity item)) = Inr (pu', t')"
    by (auto split: option.splits if_splits)
  from Cons.IH[OF rest] pr show ?case by (simp add: item_pair_def)
qed

lemma replace_loop_result:
  "replace_loop fmul oid items t db = Some (t', db') \<Longrightarrow>
     tbl_products db' = tbl_products db \<and> tbl_orders db' = tbl_orders db \<and>
     next_order_id db' = next_order_id db \<and>
     tbl_order_products db' =
       tbl_order_products db @ mk_lines oid (next_order_product_id db) (map item_pair items) \<and>
     next_order_product_id db' = next_order_product_id db + int (length items) \<and>
     next_product_id db' = next_product_id db \<and>
     list_all (\<lambda>item. tbl_products db (product_id item) \<noteq> None) items \<and>
     t' = total_amount_of fmul (tbl_products db) (map item_pair items) t"
proof (induction items arbitrary: t db)
  case Nil
  then show ?case by simp
next
  case (Cons item items)
  from Cons.prems obtain pr where pr: "tbl_products db (product_id item) = Some pr"
    and rest: "replace_loop fmul oid items (t + fmul (p_price pr) (quantity item))
                 (add_order_product oid (product_id item) (quantity item) db) = Some (t', db')"
    by (auto split: option.splits)
  from Cons.IH[OF rest] pr show ?case
    by (simp add: add_order_product_def item_pair_def)
qed

lemma replace_loop_succeeds:
  "list_all (\<lambda>item. tbl_products db (product_id item) \<noteq> None) items \<Longrightarrow>
   \<exists>r. replace_loop fmul oid items t db = Some r"
proof (induction items arbitrary: t db)
  case Nil
  show ?case by simp
next
  case (Cons item items)
  from Cons.prems obtain pr where pr: "tbl_products db (product_id item) = Some pr" by auto
  have "list_all (\<lambda>i. tbl_products (add_order_product oid (product_id item) (quantity item) db)
           (product_id i) \<noteq> None) items"
    using Cons.prems by (simp add: add_order_product_def)
  from Cons.IH[OF this] pr show ?case by simp
qed

lemma apply_changes_step:
  "(case map_of ex (fst kv) of
      None \<Rightarrow> adjust_stock (fst kv) (- snd kv) prods
    | Some old_quantity \<Rightarrow>
        if dict_get nw (fst kv) 0 < old_quantity
        then adjust_stock (fst kv) (snd kv) prods
        else adjust_stock (fst kv) (- snd kv) prods) =
   adjust_stock (fst kv) (signed_change ex nw kv) prods"
  by (simp add: signed_change_def split: option.splits)

lemma apply_changes_apply:
  "apply_changes ex nw sc prods = Some prods' \<Longrightarrow>
   prods' p = map_option (add_to_stock
                (pairs_quantity p (map (\<lambda>kv. (fst kv, signed_change ex nw kv)) sc))) (prods p)"
proof (induction sc arbitrary: prods)
  case Nil
  then show ?case by (simp add: option.map_ident)
next
  case (Cons kv sc)
  from Cons.prems obtain pr where pr: "prods (fst kv) = Some pr"
    and rest: "apply_changes ex nw sc (adjust_stock (fst kv) (signed_change ex nw kv) prods) = Some prods'"
    by (auto simp: apply_changes_step split: option.splits)
  have "prods' p = map_option (add_to_stock
                (pairs_quantity p (map (\<lambda>kv. (fst kv, signed_change ex nw kv)) sc)))
                (adjust_stock (fst kv) (signed_change ex nw kv) prods p)"
    by (rule Cons.IH[OF rest])
  also have "\<dots> = map_option (add_to_stock
                (pairs_quantity p (map (\<lambda>kv. (fst kv, signed_change ex nw kv)) (kv # sc)))) (prods p)"
    by (cases "prods p") (auto simp: adjust_stock_apply add_to_stock_def)
  finally show ?case .
qed

lemma apply_changes_succeeds:
  "list_all (\<lambda>kv. prods (fst kv) \<noteq> None) sc \<Longrightarrow> \<exists>prods'. apply_changes ex nw sc prods = Some prods'"
proof (induction sc arbitrary: prods)
  case Nil
  show ?case by simp
next
  case (Cons kv sc)
  from Cons.prems obtain pr where pr: "prods (fst kv) = Some pr" by auto
  have "list_all (\<lambda>k. adjust_stock (fst kv) (signed_change ex nw kv) prods (fst k) \<noteq> None) sc"
    using Cons.prems by (auto simp: list_all_iff adjust_stock_apply)
  from Cons.IH[OF this] pr show ?case by (simp add: apply_changes_step)
qed

lemma validate_changes_None:
  "validate_changes prods sc = None \<longleftrightarrow>
     list_all (\<lambda>kv. \<exists>pr. prods (fst kv) = Some pr \<and> \<not> (0 < snd kv \<and> p_stock pr < snd kv)) sc"
  by (induction sc) (auto split: option.splits)

lemma signed_sum_distinct:
  assumes "distinct (map fst sc)"
  shows "pairs_quantity p (map (\<lambda>kv. (fst kv, signed_change ex nw kv)) sc) =
           (case map_of sc p of None \<Rightarrow> 0 | Some c \<Rightarrow> signed_change ex nw (p, c))"
  using assms
proof (induction sc)
  case Nil
  show ?case by simp
next
  case (Cons kv sc)
  then have "fst kv = p \<Longrightarrow> map_of sc p = None"
    by (auto simp: map_of_eq_None_iff)
  with Cons show ?case by (cases kv) (auto split: option.splits)
qed

lemma stock_changes_signed:
  assumes "distinct (map fst ex)" and "distinct (map fst nw)"
  shows "pairs_quantity p (map (\<lambda>kv. (fst kv, signed_change ex nw kv)) (stock_changes_of ex nw)) =
           dict_get ex p 0 - dict_get nw p 0"
proof -
  have "pairs_quantity p (map (\<lambda>kv. (fst kv, signed_change ex nw kv)) (stock_changes_of ex nw)) =
          (case map_of (stock_changes_of ex nw) p of
             None \<Rightarrow> 0
           | Some c \<Rightarrow> signed_change ex nw (p, c))"
    by (rule signed_sum_distinct) simp
  also have "\<dots> = dict_get ex p 0 - dict_get nw p 0"
    by (simp add: stock_changes_map_of[OF assms] signed_change_def dict_get_def
        split: option.splits)
  finally show ?thesis .
qed

lemma existing_map_of_distinct [simp]: "distinct (map fst (existing_map_of db oid))"
  by (simp add: existing_map_of_def)

lemma new_map_of_distinct [simp]: "distinct (map fst (new_map_of order_data))"
  by (simp add: new_map_of_def)

lemma doc_products_succeeds:
  "list_all (\<lambda>l. prods (op_product_id l) \<noteq> None) ls \<Longrightarrow> \<exists>ds. doc_products prods ls = Some ds"
  by (induction ls) auto

lemma crud_update_order_cases:
  assumes "crud_update_order fmul ts db idx oid order_data = (res, db', idx')"
  shows "(\<exists>e. res = Inl e \<and> db' = db \<and> idx' = idx) \<or>
     (\<exists>ord. tbl_orders db oid = Some ord \<and>
        validate_changes (tbl_products db)
          (stock_changes_of (existing_map_of db oid) (new_map_of order_data)) = None \<and>
        list_all (\<lambda>item. tbl_products db (product_id item) \<noteq> None) (req_products order_data) \<and>
        (\<forall>p. tbl_products db' p =
           map_option (add_to_stock (dict_get (existing_map_of db oid) p 0 -
                                     dict_get (new_map_of order_data) p 0)) (tbl_products db p)) \<and>
        tbl_orders db' = (tbl_orders db)(oid \<mapsto> renamed order_data
          (total_amount_of fmul (tbl_products db) (map item_pair (req_products order_data)) 0) ord) \<and>
        tbl_order_products db' =
          filter (\<lambda>l. op_order_id l \<noteq> oid) (tbl_order_products db) @
          mk_lines oid (next_order_product_id db) (map item_pair (req_products order_data)) \<and>
        next_order_id db' = next_order_id db \<and>
        next_product_id db' = next_product_id db \<and>
        ((res = Inr oid \<and> index_order_in_meilisearch ts db' oid idx = Some idx') \<or>
         (res = Inl AttributeError \<and> idx' = idx \<and> index_order_in_meilisearch ts db' oid idx = None)))"
proof (cases "tbl_orders db oid")
  case None
  with assms show ?thesis by (auto simp: crud_update_order_def)
next
  case (Some ord)
  define ex where "ex = existing_map_of db oid"
  define nw where "nw = new_map_of order_data"
  define sc where "sc = stock_changes_of ex nw"
  show ?thesis
  proof (cases "validate_changes (tbl_products db) sc")
    case e: (Some e)
    with assms Some show ?thesis
      by (auto simp: crud_update_order_def Let_def sc_def ex_def nw_def)
  next
    case v: None
    show ?thesis
    proof (cases "apply_changes ex nw sc (tbl_products db)")
      case None
      with assms Some v show ?thesis
        by (auto simp: crud_update_order_def Let_def sc_def ex_def nw_def)
    next
      case a: (Some prods)
      have prods: "prods p = map_option (add_to_stock (dict_get ex p 0 - dict_get nw p 0))
                      (tbl_products db p)" for p
        using apply_changes_apply[OF a, of p]
        by (simp add: sc_def stock_changes_signed ex_def nw_def)
      define db1 where "db1 = db\<lparr>tbl_products := prods,
          tbl_order_products := filter (\<lambda>l. op_order_id l \<noteq> oid) (tbl_order_products db)\<rparr>"
      show ?thesis
      proof (cases "replace_loop fmul oid (req_products order_data) 0 db1")
        case None
        with assms Some v a show ?thesis
          by (auto simp: crud_update_order_def Let_def sc_def ex_def nw_def db1_def)
      next
        case r: (Some td)
        obtain total db2 where td: "td = (total, db2)" by (cases td)
        note rr = replace_loop_result[OF r[unfolded td]]
        have price: "map_option p_price (prods p) = map_option p_price (tbl_products db p)" for p
          by (cases "tbl_products db p") (simp_all add: prods add_to_stock_def)
        have total: "total = total_amount_of fmul (tbl_products db)
                               (map item_pair (req_products order_data)) 0"
          using rr total_amount_of_cong[of prods "tbl_products db", OF price]
          by (simp add: db1_def)
        have ex_items: "list_all (\<lambda>item. tbl_products db (product_id item) \<noteq> None)
                          (req_products order_data)"
          using rr by (simp add: db1_def prods list_all_iff)
        define db3 where "db3 = db2\<lparr>tbl_orders := (tbl_orders db2)(oid \<mapsto>
                                            ord\<lparr>o_name := req_name order_data,
                                                           o_description := req_description order_data,
                                                           o_total_amount := total\<rparr>)\<rparr>"
        have out: "(case index_order_in_meilisearch ts db3 oid idx of
              None \<Rightarrow> (Inl AttributeError, db3, idx)
            | Some idx' \<Rightarrow> (Inr oid, db3, idx')) = (res, db', idx')"
          using assms Some v a r unfolding db3_def
          by (simp add: crud_update_order_def Let_def sc_def ex_def nw_def db1_def td)
        then have db': "db' = db3" by (auto split: option.splits)
        have f1: "\<forall>p. tbl_products db' p =
           map_option (add_to_stock (dict_get (existing_map_of db oid) p 0 -
                                     dict_get (new_map_of order_data) p 0)) (tbl_products db p)"
          using rr by (simp add: db' db3_def db1_def prods ex_def nw_def)
        have f2: "tbl_orders db' = (tbl_orders db)(oid \<mapsto> renamed order_data
          (total_amount_of fmul (tbl_products db) (map item_pair (req_products order_data)) 0) ord)"
          using rr by (simp add: db' db3_def db1_def renamed_def total)
        have f3: "tbl_order_products db' =
          filter (\<lambda>l. op_order_id l \<noteq> oid) (tbl_order_products db) @
          mk_lines oid (next_order_product_id db) (map item_pair (req_products order_data))"
          using rr by (simp add: db' db3_def db1_def)
        have f4: "next_order_id db' = next_order_id db \<and> next_product_id db' = next_product_id db"
          using rr by (simp add: db' db3_def db1_def)
        have f5: "(res = Inr oid \<and> index_order_in_meilisearch ts db' oid idx = Some idx') \<or>
         (res = Inl AttributeError \<and> idx' = idx \<and> index_order_in_meilisearch ts db' oid idx = None)"
          using out by (auto simp: db' split: option.splits)
        from Some v ex_items f1 f2 f3 f4 f5 show ?thesis
          by (simp add: sc_def ex_def nw_def)
      qed
    qed
  qed
qed

section \<open>Update: the stock deltas\<close>

lemma abc_maps:
  "existing_map_of abc_shop 1 = [(1, 3), (2, 2)]"
  "new_map_of (request [(1, 1), (2, 5), (3, 2)]) = [(1, 1), (2, 5), (3, 2)]"
  "stock_changes_of [(1, 3), (2, 2)] [(1, 1), (2, 5), (3, 2)] = [(1, 2), (2, 3), (3, 2)]"
  by (simp_all add: existing_map_of_def new_map_of_def dict_of_def abc_shop_def order_lines_def
      request_def line_def stock_changes_of_def changes_existing_def changes_new_def dict_get_def)

lemma abc_updated_value:
  "abc_updated =
     (Inr 1,
      \<lparr>tbl_products =
        [1 \<mapsto> \<lparr>p_name = ''A'', p_description = None, p_price = 10, p_stock = 6\<rparr>,
         2 \<mapsto> \<lparr>p_name = ''B'', p_description = None, p_price = 7, p_stock = 7\<rparr>,
         3 \<mapsto> \<lparr>p_name = ''C'', p_description = None, p_price = 2, p_stock = 4\<rparr>],
       tbl_orders = [1 \<mapsto> \<lparr>o_name = ''O1'', o_description = None, o_created_at = 0,
                            o_total_amount = 49\<rparr>],
       tbl_order_products =
         [\<lparr>op_id = 3, op_order_id = 1, op_product_id = 1, op_quantity = 1\<rparr>,
          \<lparr>op_id = 4, op_order_id = 1, op_product_id = 2, op_quantity = 5\<rparr>,
          \<lparr>op_id = 5, op_order_id = 1, op_product_id = 3, op_quantity = 2\<rparr>],
       next_order_id = 2, next_order_product_id = 6, next_product_id = 4\<rparr>,
      [1 \<mapsto> \<lparr>d_id = 1, d_name = ''O1'', d_description = None, d_created_at = 0,
             d_total_amount = 49,
             d_products =
               [\<lparr>dp_name = ''A'', dp_description = None, dp_price = 10, dp_quantity = 1\<rparr>,
                \<lparr>dp_name = ''B'', dp_description = None, dp_price = 7, dp_quantity = 5\<rparr>,
                \<lparr>dp_name = ''C'', dp_description = None, dp_price = 2, dp_quantity = 2\<rparr>]\<rparr>])"
  unfolding abc_updated_def crud_update_order_def abc_maps Let_def
  by (simp add: abc_shop_def request_def line_def dict_get_def adjust_stock_def
      add_order_product_def index_order_in_meilisearch_def order_lines_def fun_upd_twist)

text \<open>
  C2. After a successful update of an order, the stock of every product \<open>p\<close> is its stock
  before minus (new quantity minus old quantity), where the new and the old quantity are looked
  up in the dictionaries the code builds from the new and the existing lines, 0 when \<open>p\<close> is
  absent: a positive difference is taken from the stock, a negative one is put back with the
  same magnitude, and a product in neither line set keeps its stock. For lines without a
  repeated product id the dictionaries are the line sets. The witness is the update from
  \<open>{A:3, B:2}\<close> to \<open>{A:1, B:5, C:2}\<close>: A gains 2, B loses 3, C loses 2.
\<close>

theorem update_stock_delta:
  assumes "crud_update_order fmul ts db idx oid order_data = (Inr r, db', idx')"
    and "tbl_products db p = Some pr"
  shows "tbl_products db' p =
     Some (pr\<lparr>p_stock := p_stock pr -
        (dict_get (new_map_of order_data) p 0 - dict_get (existing_map_of db oid) p 0)\<rparr>)"
  using crud_update_order_cases[OF assms(1)] assms(2)
  by (auto simp: add_to_stock_def)

theorem update_stock_delta_witness:
  "fst abc_updated = Inr 1 \<and>
   map_option p_stock (tbl_products abc_shop 1) = Some 4 \<and>
   map_option p_stock (tbl_products abc_shop 2) = Some 10 \<and>
   map_option p_stock (tbl_products abc_shop 3) = Some 6 \<and>
   map (\<lambda>p. dict_get (existing_map_of abc_shop 1) p 0) [1, 2, 3] = [3, 2, 0] \<and>
   map (\<lambda>p. dict_get (new_map_of (request [(1, 1), (2, 5), (3, 2)])) p 0) [1, 2, 3] = [1, 5, 2] \<and>
   map_option p_stock (tbl_products (fst (snd abc_updated)) 1) = Some (4 + 2) \<and>
   map_option p_stock (tbl_products (fst (snd abc_updated)) 2) = Some (10 - 3) \<and>
   map_option p_stock (tbl_products (fst (snd abc_updated)) 3) = Some (6 - 2)"
proof -
  have h: "crud_update_order (*) id abc_shop Map.empty 1 (request [(1, 1), (2, 5), (3, 2)]) =
             (Inr 1, fst (snd abc_updated), snd (snd abc_updated))"
    unfolding abc_updated_def[symmetric] by (simp add: abc_updated_value)
  have a: "tbl_products abc_shop 1 =
             Some \<lparr>p_name = ''A'', p_description = None, p_price = 10, p_stock = 4\<rparr>"
    and b: "tbl_products abc_shop 2 =
             Some \<lparr>p_name = ''B'', p_description = None, p_price = 7, p_stock = 10\<rparr>"
    and c: "tbl_products abc_shop 3 =
             Some \<lparr>p_name = ''C'', p_description = None, p_price = 2, p_stock = 6\<rparr>"
    by (simp_all add: abc_shop_def)
  have r: "fst abc_updated = Inr 1" by (simp add: abc_updated_value)
  from update_stock_delta[OF h a] update_stock_delta[OF h b] update_stock_delta[OF h c] a b c r
  show ?thesis
    by (simp add: abc_maps dict_get_def)
qed

text \<open>
  C3. The validation loop of update compares every entry of \<open>stock_changes\<close> with the
  stock, and the entry of a reduced line is the positive magnitude of the reduction. Here
  an order holds 3 units of a product whose stock is 1; reducing the line to 1 unit, a pure
  restock of 2, is refused with the error for insufficient stock.
\<close>

theorem update_restock_checked_against_stock:
  "crud_update_order (*) id low_shop Map.empty 1 (request [(1, 1)]) =
     (Inl (NotEnoughStock 1), low_shop, Map.empty :: (int, nat) orders_index)"
  by (simp add: crud_update_order_def existing_map_of_def new_map_of_def dict_of_def low_shop_def
      order_lines_def request_def line_def stock_changes_of_def changes_existing_def
      changes_new_def dict_get_def)

section \<open>The quantities of the stored lines\<close>

lemma map_line_pair_mk_lines [simp]: "map line_pair (mk_lines oid n us) = us"
  by (induction us arbitrary: n) (simp_all add: line_pair_def)

text \<open>
  C9, as stated, fails: no schema and no operation checks the sign of a quantity. A create
  request with the quantities 0 and -4 succeeds and stores a line of quantity 0 and a line of
  quantity -4.
\<close>

theorem create_stores_nonpositive_quantities:
  "fst zero_created = Inr 1 \<and>
   tbl_order_products (fst (snd zero_created)) =
     [\<lparr>op_id = 1, op_order_id = 1, op_product_id = 1, op_quantity = 0\<rparr>,
      \<lparr>op_id = 2, op_order_id = 1, op_product_id = 2, op_quantity = - 4\<rparr>]"
  by (simp add: zero_created_def crud_create_order_def shop_def shop_products_def request_def
      line_def reserve_line_def add_order_product_def adjust_stock_def
      index_order_in_meilisearch_def order_lines_def)

text \<open>
  C9, amended. The lines that a successful create-order appends, and the lines that a
  successful update-order puts in the place of the order's old lines, carry the product ids
  and the quantities of the requested lines, one stored line for each requested line and in
  the same order; so a stored line has a quantity above 0 exactly when the requested line
  has, and a requested quantity of 0 or less is stored as it is.
\<close>

theorem stored_lines_have_requested_quantities:
  "(crud_create_order fmul ts now db idx order = (Inr oid, db', idx') \<longrightarrow>
      (\<exists>new. tbl_order_products db' = tbl_order_products db @ new \<and>
             list_all (\<lambda>l. op_order_id l = oid) new \<and>
             map line_pair new = map item_pair (req_products order))) \<and>
   (crud_update_order fmul ts db idx oid order = (Inr r, db'', idx'') \<longrightarrow>
      (\<exists>new. tbl_order_products db'' =
               filter (\<lambda>l. op_order_id l \<noteq> oid) (tbl_order_products db) @ new \<and>
             list_all (\<lambda>l. op_order_id l = oid) new \<and>
             map line_pair new = map item_pair (req_products order)))"
proof (intro conjI impI)
  assume "crud_create_order fmul ts now db idx order = (Inr oid, db', idx')"
  from create_order_result(3)[OF this]
  have "tbl_order_products db' = tbl_order_products db @
          mk_lines oid (next_order_product_id db) (map item_pair (req_products order))" .
  moreover have "list_all (\<lambda>l. op_order_id l = oid)
          (mk_lines oid (next_order_product_id db) (map item_pair (req_products order)))"
    by (simp add: list_all_iff filter_id_conv[symmetric])
  ultimately show "\<exists>new. tbl_order_products db' = tbl_order_products db @ new \<and>
             list_all (\<lambda>l. op_order_id l = oid) new \<and>
             map line_pair new = map item_pair (req_products order)"
    by (intro exI[of _ "mk_lines oid (next_order_product_id db) (map item_pair (req_products order))"]) simp
next
  assume "crud_update_order fmul ts db idx oid order = (Inr r, db'', idx'')"
  from crud_update_order_cases[OF this]
  have "tbl_order_products db'' =
          filter (\<lambda>l. op_order_id l \<noteq> oid) (tbl_order_products db) @
          mk_lines oid (next_order_product_id db) (map item_pair (req_products order))"
    by auto
  moreover have "list_all (\<lambda>l. op_order_id l = oid)
          (mk_lines oid (next_order_product_id db) (map item_pair (req_products order)))"
    by (simp add: list_all_iff filter_id_conv[symmetric])
  ultimately show "\<exists>new. tbl_order_products db'' =
               filter (\<lambda>l. op_order_id l \<noteq> oid) (tbl_order_products db) @ new \<and>
             list_all (\<lambda>l. op_order_id l = oid) new \<and>
             map line_pair new = map item_pair (req_products order)"
    by (intro exI[of _ "mk_lines oid (next_order_product_id db) (map item_pair (req_products order))"]) simp
qed

theorem stored_lines_have_requested_quantities_witness:
  "fst created = Inr 1 \<and>
   map line_pair (tbl_order_products (fst (snd created))) = [(1, 2), (2, 1)] \<and>
   fst abc_updated = Inr 1 \<and>
   map line_pair (tbl_order_products (fst (snd abc_updated))) = [(1, 1), (2, 5), (3, 2)]"
proof -
  have c: "crud_create_order (*) id 0 shop Map.empty (request [(1, 2), (2, 1)]) =
             (Inr 1, fst (snd created), snd (snd created))"
    unfolding created_def[symmetric] by (simp add: created_value)
  have u: "crud_update_order (*) id abc_shop Map.empty 1 (request [(1, 1), (2, 5), (3, 2)]) =
             (Inr 1, fst (snd abc_updated), snd (snd abc_updated))"
    unfolding abc_updated_def[symmetric] by (simp add: abc_updated_value)
  from stored_lines_have_requested_quantities
         [of "(*)" id 0 shop Map.empty "request [(1, 2), (2, 1)]" 1 "fst (snd created)"
             "snd (snd created)" 1 "fst (snd abc_updated)" "snd (snd abc_updated)"] c
  have "\<exists>new. tbl_order_products (fst (snd created)) = tbl_order_products shop @ new \<and>
             list_all (\<lambda>l. op_order_id l = 1) new \<and>
             map line_pair new = map item_pair (req_products (request [(1, 2), (2, 1)]))"
    by blast
  then have 1: "map line_pair (tbl_order_products (fst (snd created))) = [(1, 2), (2, 1)]"
    by (auto simp: shop_def request_def line_def item_pair_def)
  from stored_lines_have_requested_quantities
         [of "(*)" id 0 abc_shop Map.empty "request [(1, 1), (2, 5), (3, 2)]" 1 "fst (snd abc_updated)"
             "snd (snd abc_updated)" 1 "fst (snd abc_updated)" "snd (snd abc_updated)"] u
  have "\<exists>new. tbl_order_products (fst (snd abc_updated)) =
               filter (\<lambda>l. op_order_id l \<noteq> 1) (tbl_order_products abc_shop) @ new \<and>
             list_all (\<lambda>l. op_order_id l = 1) new \<and>
             map line_pair new = map item_pair (req_products (request [(1, 1), (2, 5), (3, 2)]))"
    by blast
  then have 2: "map line_pair (tbl_order_products (fst (snd abc_updated))) = [(1, 1), (2, 5), (3, 2)]"
    by (auto simp: abc_shop_def request_def line_def item_pair_def)
  have "fst created = Inr 1" "fst abc_updated = Inr 1"
    by (simp_all add: created_value abc_updated_value)
  with 1 2 show ?thesis by simp
qed

section \<open>The search index after each operation\<close>

lemma doc_products_agree:
  "doc_products prods ls = Some ds \<Longrightarrow> list_all2 (doc_line_agrees prods) ls ds"
proof (induction ls arbitrary: ds)
  case Nil
  then show ?case by simp
next
  case (Cons l ls)
  from Cons.prems obtain pr ds' where pr: "prods (op_product_id l) = Some pr"
    and ds': "doc_products prods ls = Some ds'"
    and ds: "ds = \<lparr>dp_name = p_name pr, dp_description = p_description pr,
                      dp_price = p_price pr, dp_quantity = op_quantity l\<rparr> # ds'"
    by (auto split: option.splits)
  from Cons.IH[OF ds'] pr show ?case by (simp add: ds doc_line_agrees_def)
qed

lemma index_order_agrees:
  assumes "index_order_in_meilisearch ts db oid idx = Some idx'"
  shows "\<exists>doc. idx' oid = Some doc \<and> doc_agrees ts db oid doc"
proof -
  from assms obtain ord ds where ord: "tbl_orders db oid = Some ord"
    and ds: "doc_products (tbl_products db) (order_lines db oid) = Some ds"
    and idx': "idx' = idx(oid \<mapsto>
                 \<lparr>d_id = oid, d_name = o_name ord, d_description = o_description ord,
                  d_created_at = ts (o_created_at ord), d_total_amount = o_total_amount ord,
                  d_products = ds\<rparr>)"
    by (auto simp: index_order_in_meilisearch_def split: option.splits)
  from doc_products_agree[OF ds] ord show ?thesis
    by (simp add: idx' doc_agrees_def)
qed

text \<open>
  C6. After a successful create-order and after a successful update-order, the index holds
  under the order's id a document that agrees with the database the operation leaves: the id,
  name, description, total amount, the creation time as \<open>ts\<close> gives it, and for each line of
  the order, in order, the name, description and price of its product and the line's
  quantity. After a successful delete-order, looking the order's id up in the index
  raises the not-found error. (The index is written at once: the model has no queue of
  pending index writes.)
\<close>

theorem projection_follows_ledger:
  "(crud_create_order fmul ts now db idx order = (Inr oid, db', idx') \<longrightarrow>
      (\<exists>doc. idx' oid = Some doc \<and> doc_agrees ts db' oid doc)) \<and>
   (crud_update_order fmul ts db idx oid order = (Inr r, db'', idx'') \<longrightarrow>
      (\<exists>doc. idx'' oid = Some doc \<and> doc_agrees ts db'' oid doc)) \<and>
   (crud_delete_order db idx oid = (Inr r', db''', idx''') \<longrightarrow>
      crud_get_order_by_id fmt idx''' oid = Inl OrderNotFound)"
proof (intro conjI impI)
  assume "crud_create_order fmul ts now db idx order = (Inr oid, db', idx')"
  from create_order_result(5)[OF this] show "\<exists>doc. idx' oid = Some doc \<and> doc_agrees ts db' oid doc"
    by (rule index_order_agrees)
next
  assume "crud_update_order fmul ts db idx oid order = (Inr r, db'', idx'')"
  from crud_update_order_cases[OF this]
  have "index_order_in_meilisearch ts db'' oid idx = Some idx''" by auto
  then show "\<exists>doc. idx'' oid = Some doc \<and> doc_agrees ts db'' oid doc"
    by (rule index_order_agrees)
next
  assume "crud_delete_order db idx oid = (Inr r', db''', idx''')"
  then have "idx''' oid = None"
    by (auto simp: crud_delete_order_def split: option.splits)
  then show "crud_get_order_by_id fmt idx''' oid = Inl OrderNotFound"
    by (simp add: crud_get_order_by_id_def)
qed

theorem projection_follows_ledger_witness:
  "fst created = Inr 1 \<and>
   tbl_orders (fst (snd created)) 1 =
     Some \<lparr>o_name = ''O1'', o_description = None, o_created_at = 0, o_total_amount = 27\<rparr> \<and>
   snd (snd created) 1 =
     Some \<lparr>d_id = 1, d_name = ''O1'', d_description = None, d_created_at = 0,
           d_total_amount = 27,
           d_products =
             [\<lparr>dp_name = ''P1'', dp_description = None, dp_price = 10, dp_quantity = 2\<rparr>,
              \<lparr>dp_name = ''P2'', dp_description = Some ''second'', dp_price = 7, dp_quantity = 1\<rparr>]\<rparr> \<and>
   (\<exists>doc. snd (snd created) 1 = Some doc \<and> doc_agrees id (fst (snd created)) 1 doc) \<and>
   fst abc_updated = Inr 1 \<and>
   (\<exists>doc. snd (snd abc_updated) 1 = Some doc \<and> doc_agrees id (fst (snd abc_updated)) 1 doc) \<and>
   fst (crud_delete_order (fst (snd created)) (snd (snd created)) 1) = Inr 1 \<and>
   crud_get_order_by_id (\<lambda>t. ''1970-01-01 00:00:00'')
     (snd (snd (crud_delete_order (fst (snd created)) (snd (snd created)) 1))) 1 =
     Inl OrderNotFound"
proof -
  have c: "crud_create_order (*) id 0 shop Map.empty (request [(1, 2), (2, 1)]) =
             (Inr 1, fst (snd created), snd (snd created))"
    unfolding created_def[symmetric] by (simp add: created_value)
  have u: "crud_update_order (*) id abc_shop Map.empty 1 (request [(1, 1), (2, 5), (3, 2)]) =
             (Inr 1, fst (snd abc_updated), snd (snd abc_updated))"
    unfolding abc_updated_def[symmetric] by (simp add: abc_updated_value)
  define deleted where "deleted = crud_delete_order (fst (snd created)) (snd (snd created)) 1"
  have d: "crud_delete_order (fst (snd created)) (snd (snd created)) 1 =
             (Inr 1, fst (snd deleted), snd (snd deleted))"
    unfolding deleted_def[symmetric] by (simp add: deleted_def created_value crud_delete_order_def)
  have 1: "\<exists>doc. snd (snd created) 1 = Some doc \<and> doc_agrees id (fst (snd created)) 1 doc"
    using projection_follows_ledger
      [of "(*)" id 0 shop Map.empty "request [(1, 2), (2, 1)]" 1 "fst (snd created)"
          "snd (snd created)"] c
    by blast
  have 2: "\<exists>doc. snd (snd abc_updated) 1 = Some doc \<and> doc_agrees id (fst (snd abc_updated)) 1 doc"
    using projection_follows_ledger
      [of "(*)" id 0 abc_shop Map.empty "request [(1, 1), (2, 5), (3, 2)]" 1 "fst (snd abc_updated)"
          "snd (snd abc_updated)" 1 "fst (snd abc_updated)" "snd (snd abc_updated)"] u
    by blast
  have 3: "crud_get_order_by_id (\<lambda>t. ''1970-01-01 00:00:00'') (snd (snd deleted)) 1 =
             Inl OrderNotFound"
    using projection_follows_ledger
      [of "(*)" id 0 "fst (snd created)" "snd (snd created)" "request []" 1 "fst (snd created)"
          "snd (snd created)" 1 "fst (snd created)" "snd (snd created)" 1 "fst (snd deleted)"
          "snd (snd deleted)" "\<lambda>t. ''1970-01-01 00:00:00''"] d
    by blast
  have 4: "fst created = Inr 1" "fst abc_updated = Inr 1" "fst deleted = Inr 1"
    by (simp_all add: created_value abc_updated_value deleted_def crud_delete_order_def)
  have 5: "tbl_orders (fst (snd created)) 1 =
     Some \<lparr>o_name = ''O1'', o_description = None, o_created_at = 0, o_total_amount = 27\<rparr>"
    "snd (snd created) 1 =
     Some \<lparr>d_id = 1, d_name = ''O1'', d_description = None, d_created_at = 0,
           d_total_amount = 27,
           d_products =
             [\<lparr>dp_name = ''P1'', dp_description = None, dp_price = 10, dp_quantity = 2\<rparr>,
              \<lparr>dp_name = ''P2'', dp_description = Some ''second'', dp_price = 7, dp_quantity = 1\<rparr>]\<rparr>"
    by (simp_all add: created_value)
  from 1 2 3 4 5 show ?thesis
    unfolding deleted_def by blast
qed

section \<open>The outcomes of create and delete\<close>

lemma crud_create_order_cases:
  assumes "crud_create_order fmul ts now db idx order = (res, db', idx')"
  shows "(\<exists>e. res = Inl e \<and> db' = db \<and> idx' = idx) \<or>
     (list_all (\<lambda>item. \<exists>pr. tbl_products db (product_id item) = Some pr \<and>
                     quantity item \<le> p_stock pr) (req_products order) \<and>
      tbl_orders db' = (tbl_orders db)(next_order_id db \<mapsto>
         \<lparr>o_name = req_name order, o_description = req_description order, o_created_at = now,
          o_total_amount =
            total_amount_of fmul (tbl_products db) (map item_pair (req_products order)) 0\<rparr>) \<and>
      tbl_order_products db' =
        tbl_order_products db @
        mk_lines (next_order_id db) (next_order_product_id db) (map item_pair (req_products order)) \<and>
      (\<forall>p. tbl_products db' p =
         map_option (add_to_stock (- pairs_quantity p (map item_pair (req_products order))))
           (tbl_products db p)) \<and>
      next_order_id db' = next_order_id db + 1 \<and>
      next_product_id db' = next_product_id db \<and>
      ((res = Inr (next_order_id db) \<and>
          index_order_in_meilisearch ts db' (next_order_id db) idx = Some idx') \<or>
       (res = Inl AttributeError \<and> idx' = idx \<and>
          index_order_in_meilisearch ts db' (next_order_id db) idx = None)))"
proof (cases "create_loop fmul (tbl_products db) (req_products order) [] 0")
  case (Inl e)
  with assms show ?thesis by (auto simp: crud_create_order_def)
next
  case (Inr r)
  obtain pu total where r: "r = (pu, total)" by (cases r)
  note loop = Inr[unfolded r]
  from create_loop_success[OF loop] have pu: "pu = map item_pair (req_products order)"
    and ok: "list_all (\<lambda>item. \<exists>pr. tbl_products db (product_id item) = Some pr \<and>
                     quantity item \<le> p_stock pr) (req_products order)"
    by simp_all
  from create_loop_total[OF loop]
  have total: "total = total_amount_of fmul (tbl_products db) (map item_pair (req_products order)) 0" .
  define db0 where "db0 = db\<lparr>tbl_orders := (tbl_orders db)(next_order_id db \<mapsto>
                          \<lparr>o_name = req_name order, o_description = req_description order,
                           o_created_at = now, o_total_amount = total\<rparr>),
                        next_order_id := next_order_id db + 1\<rparr>"
  define db2 where "db2 = fold (reserve_line (next_order_id db)) pu db0"
  have out: "(case index_order_in_meilisearch ts db2 (next_order_id db) idx of
                 None \<Rightarrow> (Inl AttributeError, db2, idx)
               | Some idx' \<Rightarrow> (Inr (next_order_id db), db2, idx')) = (res, db', idx')"
    using assms loop unfolding db2_def db0_def
    by (simp add: crud_create_order_def Let_def)
  then have db': "db' = db2" by (auto split: option.splits)
  have f1: "tbl_orders db' = (tbl_orders db)(next_order_id db \<mapsto>
         \<lparr>o_name = req_name order, o_description = req_description order, o_created_at = now,
          o_total_amount =
            total_amount_of fmul (tbl_products db) (map item_pair (req_products order)) 0\<rparr>)"
    by (simp add: db' db2_def fold_reserve_line_fields db0_def total)
  have f2: "tbl_order_products db' =
        tbl_order_products db @
        mk_lines (next_order_id db) (next_order_product_id db) (map item_pair (req_products order))"
    by (simp add: db' db2_def fold_reserve_line_fields db0_def pu)
  have f3: "\<forall>p. tbl_products db' p =
         map_option (add_to_stock (- pairs_quantity p (map item_pair (req_products order))))
           (tbl_products db p)"
    by (simp add: db' db2_def fold_reserve_line_products db0_def pu)
  have f4: "next_order_id db' = next_order_id db + 1 \<and> next_product_id db' = next_product_id db"
    by (simp add: db' db2_def fold_reserve_line_fields db0_def)
  have f5: "(res = Inr (next_order_id db) \<and>
          index_order_in_meilisearch ts db' (next_order_id db) idx = Some idx') \<or>
       (res = Inl AttributeError \<and> idx' = idx \<and>
          index_order_in_meilisearch ts db' (next_order_id db) idx = None)"
    using out by (auto simp: db' split: option.splits)
  from ok f1 f2 f3 f4 f5 show ?thesis by simp
qed

lemma crud_delete_order_cases:
  assumes "crud_delete_order db idx oid = (res, db', idx')"
  shows "(res = Inl OrderNotFound \<and> tbl_orders db oid = None \<and> db' = db \<and> idx' = idx) \<or>
     (res = Inr oid \<and> tbl_orders db oid \<noteq> None \<and>
      (\<forall>p. tbl_products db' p =
         map_option (add_to_stock (line_quantity p (order_lines db oid))) (tbl_products db p)) \<and>
      tbl_order_products db' = filter (\<lambda>l. op_order_id l \<noteq> oid) (tbl_order_products db) \<and>
      tbl_orders db' = (tbl_orders db)(oid := None) \<and>
      next_order_id db' = next_order_id db \<and>
      next_product_id db' = next_product_id db \<and>
      idx' = idx(oid := None))"
  using assms
  by (cases "tbl_orders db oid") (auto simp: crud_delete_order_def fold_restock_line_apply)

lemma mk_lines_member:
  "l \<in> set (mk_lines oid n us) \<Longrightarrow> op_order_id l = oid \<and> (op_product_id l, op_quantity l) \<in> set us"
  by (induction us arbitrary: n) auto

section \<open>Update with the current lines\<close>

lemma crud_update_order_succeeds:
  assumes o: "tbl_orders db oid = Some ord"
    and v: "validate_changes (tbl_products db)
              (stock_changes_of (existing_map_of db oid) (new_map_of order_data)) = None"
    and e: "list_all (\<lambda>item. tbl_products db (product_id item) \<noteq> None) (req_products order_data)"
  shows "fst (crud_update_order fmul ts db idx oid order_data) = Inr oid"
proof -
  define ex where "ex = existing_map_of db oid"
  define nw where "nw = new_map_of order_data"
  define sc where "sc = stock_changes_of ex nw"
  from v have "list_all (\<lambda>kv. tbl_products db (fst kv) \<noteq> None) sc"
    by (auto simp: validate_changes_None sc_def ex_def nw_def list_all_iff)
  from apply_changes_succeeds[OF this]
  obtain prods where a: "apply_changes ex nw sc (tbl_products db) = Some prods" by blast
  have dom: "prods p = None \<longleftrightarrow> tbl_products db p = None" for p
    using apply_changes_apply[OF a, of p] by simp
  define db1 where "db1 = db\<lparr>tbl_products := prods,
          tbl_order_products := filter (\<lambda>l. op_order_id l \<noteq> oid) (tbl_order_products db)\<rparr>"
  have "list_all (\<lambda>item. tbl_products db1 (product_id item) \<noteq> None) (req_products order_data)"
    using e by (simp add: db1_def dom)
  from replace_loop_succeeds[OF this]
  obtain td where r: "replace_loop fmul oid (req_products order_data) 0 db1 = Some td" by blast
  obtain total db2 where td: "td = (total, db2)" by (cases td)
  note rr = replace_loop_result[OF r[unfolded td]]
  define db3 where "db3 = db2\<lparr>tbl_orders := (tbl_orders db2)(oid \<mapsto>
                                  ord\<lparr>o_name := req_name order_data,
                                       o_description := req_description order_data,
                                       o_total_amount := total\<rparr>)\<rparr>"
  have lines: "order_lines db3 oid =
      mk_lines oid (next_order_product_id db) (map item_pair (req_products order_data))"
    using rr by (simp add: order_lines_def db3_def db1_def)
  have p3: "tbl_products db3 = prods"
    using rr by (simp add: db3_def db1_def)
  have "list_all (\<lambda>l. tbl_products db3 (op_product_id l) \<noteq> None) (order_lines db3 oid)"
    unfolding lines p3 using e
    by (fastforce simp: dom list_all_iff item_pair_def dest!: mk_lines_member)
  from doc_products_succeeds[OF this]
  obtain ds where ds: "doc_products (tbl_products db3) (order_lines db3 oid) = Some ds" by blast
  have o3: "tbl_orders db3 oid \<noteq> None"
    by (simp add: db3_def)
  have ix: "index_order_in_meilisearch ts db3 oid idx \<noteq> None"
    using o3 by (auto simp: index_order_in_meilisearch_def ds)
  have "crud_update_order fmul ts db idx oid order_data =
          (case index_order_in_meilisearch ts db3 oid idx of
             None \<Rightarrow> (Inl AttributeError, db3, idx)
           | Some idx' \<Rightarrow> (Inr oid, db3, idx'))"
    using o v a r unfolding db3_def
    by (simp add: crud_update_order_def Let_def sc_def ex_def nw_def db1_def td)
  with ix show ?thesis by (auto split: option.splits)
qed

lemma existing_map_of_line_pair: "existing_map_of db oid = dict_of (map line_pair (order_lines db oid))"
  by (simp add: existing_map_of_def line_pair_def[abs_def])

lemma new_map_of_item_pair: "new_map_of order_data = dict_of (map item_pair (req_products order_data))"
  by (simp add: new_map_of_def item_pair_def[abs_def])

lemma stock_changes_same: "distinct (map fst ex) \<Longrightarrow> stock_changes_of ex ex = []"
proof -
  assume d: "distinct (map fst ex)"
  have "map_of (stock_changes_of ex ex) p = None" for p
    by (simp add: stock_changes_map_of[OF d d] dict_get_def split: option.splits)
  then have "map_of (stock_changes_of ex ex) = Map.empty" by (rule ext)
  then show ?thesis by (simp only: map_of_eq_empty_iff)
qed

text \<open>
  What the code does for the same sequence of lines. In a database where every line
  references a product that exists and every order's total is the one computed from its
  lines, an update-order whose lines are the order's current lines in the same order succeeds
  and leaves the products table and the order's total amount as they were.
\<close>

lemma update_same_sequence_changes_nothing:
  assumes "lines_known db" and "totals_current fmul db"
    and "tbl_orders db oid = Some ord"
    and "map item_pair (req_products order_data) = map line_pair (order_lines db oid)"
  shows "\<exists>db' idx' ord'. crud_update_order fmul ts db idx oid order_data = (Inr oid, db', idx') \<and>
           tbl_products db' = tbl_products db \<and>
           tbl_orders db' oid = Some ord' \<and> o_total_amount ord' = o_total_amount ord"
proof -
  note lk = assms(1) and tc = assms(2)
  have same: "new_map_of order_data = existing_map_of db oid"
    by (simp add: existing_map_of_line_pair new_map_of_item_pair assms(4))
  have sc: "stock_changes_of (existing_map_of db oid) (new_map_of order_data) = []"
    by (simp add: same stock_changes_same)
  have "list_all (\<lambda>u. tbl_products db (fst u) \<noteq> None) (map line_pair (order_lines db oid))"
    using lk by (auto simp: lines_known_def list_all_iff order_lines_def line_pair_def)
  then have e: "list_all (\<lambda>item. tbl_products db (product_id item) \<noteq> None) (req_products order_data)"
    unfolding assms(4)[symmetric] by (simp add: list_all_iff item_pair_def)
  have ok: "fst (crud_update_order fmul ts db idx oid order_data) = Inr oid"
    by (rule crud_update_order_succeeds[OF assms(3) _ e]) (simp add: sc)
  obtain res db' idx' where r: "crud_update_order fmul ts db idx oid order_data = (res, db', idx')"
    by (cases "crud_update_order fmul ts db idx oid order_data") auto
  with ok have res: "res = Inr oid" by simp
  from crud_update_order_cases[OF r] res assms(3)
  have p: "\<forall>p. tbl_products db' p =
           map_option (add_to_stock (dict_get (existing_map_of db oid) p 0 -
                                     dict_get (new_map_of order_data) p 0)) (tbl_products db p)"
    and t: "tbl_orders db' = (tbl_orders db)(oid \<mapsto> renamed order_data
          (total_amount_of fmul (tbl_products db) (map item_pair (req_products order_data)) 0) ord)"
    by auto
  have "tbl_products db' = tbl_products db"
  proof
    fix q show "tbl_products db' q = tbl_products db q"
      using p by (cases "tbl_products db q") (simp_all add: same)
  qed
  moreover have "o_total_amount (renamed order_data
          (total_amount_of fmul (tbl_products db) (map item_pair (req_products order_data)) 0) ord) =
        o_total_amount ord"
    using tc assms(3) by (simp add: renamed_def totals_current_def assms(4))
  ultimately show ?thesis
    using r res t by simp
qed

text \<open>
  C8. An update-order whose request holds the order's current lines, in another order. Order 1
  was created with the two lines (product 1, quantity 1) and (product 1, quantity 2), which
  took the stock of product 1 from 5 to 2. The update with the lines (product 1, quantity 2)
  and (product 1, quantity 1) succeeds; the two dictionaries keep the last quantity of the
  repeated product id, 2 for the existing lines and 1 for the new ones, so one unit is put
  back: the stock goes from 2 to 3 while the order holds the same two lines.
\<close>

theorem update_reordered_lines_changes_stock:
  "fst repeated_created = Inr 1 \<and>
   map line_pair (order_lines (fst (snd repeated_created)) 1) = [(1, 1), (1, 2)] \<and>
   map_option p_stock (tbl_products (fst (snd repeated_created)) 1) = Some 2 \<and>
   fst reordered_updated = Inr 1 \<and>
   map line_pair (order_lines (fst (snd reordered_updated)) 1) = [(1, 2), (1, 1)] \<and>
   map_option p_stock (tbl_products (fst (snd reordered_updated)) 1) = Some 3"
  by (simp add: reordered_updated_def repeated_created_def
      crud_create_order_def crud_update_order_def
      shop_def shop_products_def request_def line_def line_pair_def
      reserve_line_def add_order_product_def adjust_stock_def
      index_order_in_meilisearch_def order_lines_def
      existing_map_of_def new_map_of_def dict_of_def stock_changes_of_def
      changes_existing_def changes_new_def dict_get_def)

section \<open>Create: when the stock is decremented\<close>

lemma create_loop_events_release: "fold lock_step (create_loop_events prods items) held \<subseteq> held"
proof (induction items arbitrary: held)
  case Nil
  show ?case by simp
next
  case (Cons item items)
  have "fold lock_step (create_loop_events prods items) (held - {product_id item}) \<subseteq>
          held - {product_id item}"
    by (rule Cons.IH)
  then show ?case by (auto split: option.splits)
qed

lemma no_lock_held_after_first_loop: "fold lock_step (create_loop_events prods items) {} = {}"
  using create_loop_events_release[of prods items "{}"] by simp

text \<open>
  C4. The sentence of the specification is not what the code does. In a successful create of
  one line for 2 units of product 1, the lock of product 1 is released right after the stock
  check; the decrement of the stock comes after the release and after the first commit, and
  it is persisted by the second commit, with no lock held.
\<close>

theorem create_decrements_after_release:
  "crud_create_order_events (*) shop_products (request [(1, 2)]) =
     [Acquire 1, Expire 1, SelectForUpdate 1, Release 1, AddOrder, Commit,
      DecrementStock 1 2, AddOrderProduct 1 2, Commit, IndexOrder]"
  by (simp add: crud_create_order_events_def shop_products_def request_def line_def)

section \<open>Conservation of stock\<close>

lemma line_quantity_filter_split:
  "line_quantity p ls = line_quantity p (filter Q ls) + line_quantity p (filter (\<lambda>l. \<not> Q l) ls)"
  by (induction ls) simp_all

lemma filter_mk_lines_by_order:
  "(\<And>l. op_order_id l = oid \<Longrightarrow> P l) \<Longrightarrow> filter P (mk_lines oid n us) = mk_lines oid n us"
  by (induction us arbitrary: n) simp_all

lemma product_ids_mk_lines [simp]: "map op_product_id (mk_lines oid n us) = map fst us"
  by (induction us arbitrary: n) simp_all

lemma line_quantity_nonneg:
  "list_all (\<lambda>l. 0 \<le> op_quantity l) ls \<Longrightarrow> 0 \<le> line_quantity p ls"
  by (induction ls) simp_all

lemma line_quantity_pairs: "line_quantity p ls = pairs_quantity p (map line_pair ls)"
  by (induction ls) (simp_all add: line_pair_def)

lemma stock_ledger_okD:
  assumes "stock_ledger_ok db"
  shows "list_all (\<lambda>l. op_order_id l < next_order_id db) (tbl_order_products db)"
    and "list_all (\<lambda>l. 0 \<le> op_quantity l) (tbl_order_products db)"
    and "\<And>k. next_order_id db \<le> k \<Longrightarrow> tbl_orders db k = None"
    and "\<And>oid. distinct (map op_product_id (order_lines db oid))"
    and "\<And>p pr. tbl_products db p = Some pr \<Longrightarrow> 0 \<le> p_stock pr"
  using assms by (auto simp: stock_ledger_ok_def list_all_iff)

lemma stock_ledger_okI:
  assumes "list_all (\<lambda>l. op_order_id l < next_order_id db) (tbl_order_products db)"
    and "list_all (\<lambda>l. 0 \<le> op_quantity l) (tbl_order_products db)"
    and "\<And>k. next_order_id db \<le> k \<Longrightarrow> tbl_orders db k = None"
    and "\<And>oid. distinct (map op_product_id (order_lines db oid))"
    and "\<And>p pr. tbl_products db p = Some pr \<Longrightarrow> 0 \<le> p_stock pr"
  shows "stock_ledger_ok db"
  using assms by (auto simp: stock_ledger_ok_def list_all_iff)

lemma conserves_refl: "stock_ledger_ok db \<Longrightarrow> conserves db db"
  by (simp add: conserves_def)

lemma create_order_conserves:
  assumes ok: "stock_ledger_ok db"
    and plain: "request_plain order"
    and r: "crud_create_order fmul ts now db idx order = (res, db', idx')"
  shows "conserves db db'"
proof -
  define items where "items = map item_pair (req_products order)"
  define new where "new = next_order_id db"
  define L where "L = mk_lines new (next_order_product_id db) items"
  from crud_create_order_cases[OF r]
  consider (failed) "db' = db"
    | (committed)
      "list_all (\<lambda>item. \<exists>pr. tbl_products db (product_id item) = Some pr \<and>
                     quantity item \<le> p_stock pr) (req_products order)"
      "\<exists>ord. tbl_orders db' = (tbl_orders db)(new \<mapsto> ord)"
      "tbl_order_products db' = tbl_order_products db @ L"
      "\<forall>p. tbl_products db' p =
         map_option (add_to_stock (- pairs_quantity p items)) (tbl_products db p)"
      "next_order_id db' = new + 1"
    unfolding items_def new_def L_def by blast
  then show ?thesis
  proof cases
    case failed
    with ok show ?thesis by (simp add: conserves_refl)
  next
    case committed
    note f = committed
    note k = stock_ledger_okD[OF ok]
    from f(2) obtain ord where orders: "tbl_orders db' = (tbl_orders db)(new \<mapsto> ord)" by blast
    have dist: "distinct (map fst items)"
      using plain by (simp add: request_plain_def items_def item_pair_def[abs_def] comp_def)
    have nonneg: "list_all (\<lambda>u. 0 \<le> snd u) items"
      using plain by (simp add: request_plain_def items_def item_pair_def list_all_iff)
    have old: "filter (\<lambda>l. op_order_id l = new) (tbl_order_products db) = []"
      using k(1) by (auto simp: new_def list_all_iff filter_empty_conv)
    have lines': "order_lines db' oid = (if oid = new then L else order_lines db oid)" for oid
      by (simp add: order_lines_def f(3) old L_def)
    have enough: "pairs_quantity p items \<le> p_stock pr" if pr: "tbl_products db p = Some pr" for p pr
    proof (cases "map_of items p")
      case None
      with k(5)[OF pr] show ?thesis by (simp add: pairs_quantity_distinct[OF dist])
    next
      case (Some q)
      then have "(p, q) \<in> set items" by (rule map_of_SomeD)
      then obtain item where "item \<in> set (req_products order)" "product_id item = p" "quantity item = q"
        by (auto simp: items_def item_pair_def)
      with f(1) pr have "q \<le> p_stock pr" by (auto simp: list_all_iff)
      with Some show ?thesis by (simp add: pairs_quantity_distinct[OF dist])
    qed
    have ok': "stock_ledger_ok db'"
    proof (rule stock_ledger_okI)
      show "list_all (\<lambda>l. op_order_id l < next_order_id db') (tbl_order_products db')"
        using k(1) by (fastforce simp: f(3) f(5) L_def new_def list_all_iff dest!: mk_lines_member)
      show "list_all (\<lambda>l. 0 \<le> op_quantity l) (tbl_order_products db')"
        using k(2) nonneg by (fastforce simp: f(3) L_def list_all_iff dest!: mk_lines_member)
      show "tbl_orders db' k = None" if "next_order_id db' \<le> k" for k
        using that k(3)[of k] by (simp add: orders f(5) new_def)
      show "distinct (map op_product_id (order_lines db' oid))" for oid
        using k(4)[of oid] dist by (simp add: lines' L_def)
      show "0 \<le> p_stock pr'" if "tbl_products db' p = Some pr'" for p pr'
      proof -
        from that f(4) obtain pr where pr: "tbl_products db p = Some pr"
          and pr': "pr' = add_to_stock (- pairs_quantity p items) pr"
          by (cases "tbl_products db p") auto
        from enough[OF pr] show ?thesis by (simp add: pr' add_to_stock_def)
      qed
    qed
    have res: "reserved db' p = reserved db p + pairs_quantity p items" for p
    proof -
      have "filter (\<lambda>l. tbl_orders db' (op_order_id l) \<noteq> None) (tbl_order_products db) =
            filter (\<lambda>l. tbl_orders db (op_order_id l) \<noteq> None) (tbl_order_products db)"
        using k(1) by (intro filter_cong) (auto simp: orders new_def list_all_iff)
      moreover have "filter (\<lambda>l. tbl_orders db' (op_order_id l) \<noteq> None) L = L"
        unfolding L_def by (rule filter_mk_lines_by_order) (simp add: orders)
      ultimately show ?thesis
        by (simp add: reserved_def f(3)) (simp add: L_def)
    qed
    have "\<exists>pr'. tbl_products db' p = Some pr' \<and>
           p_stock pr' + reserved db' p = p_stock pr + reserved db p"
      if "tbl_products db p = Some pr" for p pr
      using that f(4) by (simp add: res add_to_stock_def)
    with ok' show ?thesis by (simp add: conserves_def)
  qed
qed

lemma reserved_split:
  assumes live: "tbl_orders db oid \<noteq> None"
    and rest: "\<And>k. k \<noteq> oid \<Longrightarrow> (tbl_orders db' k = None) = (tbl_orders db k = None)"
  shows "reserved db p =
           line_quantity p (filter (\<lambda>l. tbl_orders db' (op_order_id l) \<noteq> None)
                              (filter (\<lambda>l. op_order_id l \<noteq> oid) (tbl_order_products db))) +
           line_quantity p (order_lines db oid)"
proof -
  let ?live = "\<lambda>l. tbl_orders db (op_order_id l) \<noteq> None"
  have "reserved db p =
          line_quantity p (filter (\<lambda>l. op_order_id l = oid) (filter ?live (tbl_order_products db))) +
          line_quantity p (filter (\<lambda>l. \<not> op_order_id l = oid) (filter ?live (tbl_order_products db)))"
    unfolding reserved_def by (rule line_quantity_filter_split)
  moreover have "filter (\<lambda>l. op_order_id l = oid) (filter ?live (tbl_order_products db)) =
                 order_lines db oid"
    using live by (auto simp: order_lines_def intro: filter_cong)
  moreover have "filter (\<lambda>l. \<not> op_order_id l = oid) (filter ?live (tbl_order_products db)) =
                 filter (\<lambda>l. tbl_orders db' (op_order_id l) \<noteq> None)
                   (filter (\<lambda>l. op_order_id l \<noteq> oid) (tbl_order_products db))"
    unfolding filter_filter
  proof (rule filter_cong[OF refl])
    fix x
    show "(tbl_orders db (op_order_id x) \<noteq> None \<and> \<not> op_order_id x = oid) =
          (op_order_id x \<noteq> oid \<and> tbl_orders db' (op_order_id x) \<noteq> None)"
    proof (cases "op_order_id x = oid")
      case True
      then show ?thesis by simp
    next
      case False
      from rest[OF False] False show ?thesis by (simp del: not_None_eq)
    qed
  qed
  ultimately show ?thesis by simp
qed

lemma delete_order_conserves:
  assumes ok: "stock_ledger_ok db"
    and r: "crud_delete_order db idx oid = (res, db', idx')"
  shows "conserves db db'"
proof -
  from crud_delete_order_cases[OF r]
  consider (failed) "db' = db"
    | (committed)
      "tbl_orders db oid \<noteq> None"
      "\<forall>p. tbl_products db' p =
         map_option (add_to_stock (line_quantity p (order_lines db oid))) (tbl_products db p)"
      "tbl_order_products db' = filter (\<lambda>l. op_order_id l \<noteq> oid) (tbl_order_products db)"
      "tbl_orders db' = (tbl_orders db)(oid := None)"
      "next_order_id db' = next_order_id db"
    by blast
  then show ?thesis
  proof cases
    case failed
    with ok show ?thesis by (simp add: conserves_refl)
  next
    case committed
    note f = committed
    note k = stock_ledger_okD[OF ok]
    have lines': "order_lines db' oid' = (if oid' = oid then [] else order_lines db oid')" for oid'
      by (auto simp: order_lines_def f(3) filter_empty_conv intro: filter_cong)
    have returned: "0 \<le> line_quantity p (order_lines db oid)" for p
      using k(2) by (intro line_quantity_nonneg) (simp add: order_lines_def list_all_iff)
    have ok': "stock_ledger_ok db'"
    proof (rule stock_ledger_okI)
      show "list_all (\<lambda>l. op_order_id l < next_order_id db') (tbl_order_products db')"
        using k(1) by (simp add: f(3) f(5) list_all_iff)
      show "list_all (\<lambda>l. 0 \<le> op_quantity l) (tbl_order_products db')"
        using k(2) by (simp add: f(3) list_all_iff)
      show "tbl_orders db' k = None" if "next_order_id db' \<le> k" for k
        using that k(3)[of k] by (simp add: f(4) f(5))
      show "distinct (map op_product_id (order_lines db' oid'))" for oid'
        using k(4)[of oid'] by (simp add: lines')
      show "0 \<le> p_stock pr'" if "tbl_products db' p = Some pr'" for p pr'
      proof -
        from that f(2) obtain pr where pr: "tbl_products db p = Some pr"
          and pr': "pr' = add_to_stock (line_quantity p (order_lines db oid)) pr"
          by (cases "tbl_products db p") auto
        from k(5)[OF pr] returned[of p] show ?thesis by (simp add: pr' add_to_stock_def)
      qed
    qed
    have res: "reserved db p = reserved db' p + line_quantity p (order_lines db oid)" for p
    proof -
      have "reserved db p =
           line_quantity p (filter (\<lambda>l. tbl_orders db' (op_order_id l) \<noteq> None)
                              (filter (\<lambda>l. op_order_id l \<noteq> oid) (tbl_order_products db))) +
           line_quantity p (order_lines db oid)"
        by (rule reserved_split[OF f(1)]) (simp add: f(4))
      then show ?thesis by (simp add: reserved_def f(3))
    qed
    have "\<exists>pr'. tbl_products db' p = Some pr' \<and>
           p_stock pr' + reserved db' p = p_stock pr + reserved db p"
      if "tbl_products db p = Some pr" for p pr
      using that f(2) by (simp add: res add_to_stock_def)
    with ok' show ?thesis by (simp add: conserves_def)
  qed
qed

lemma update_order_conserves:
  assumes ok: "stock_ledger_ok db"
    and plain: "request_plain order"
    and r: "crud_update_order fmul ts db idx oid order = (res, db', idx')"
  shows "conserves db db'"
proof -
  define items where "items = map item_pair (req_products order)"
  define L where "L = mk_lines oid (next_order_product_id db) items"
  define ex where "ex = existing_map_of db oid"
  define nw where "nw = new_map_of order"
  from crud_update_order_cases[OF r]
  consider (failed) "db' = db"
    | (committed) ord where
      "tbl_orders db oid = Some ord"
      "validate_changes (tbl_products db) (stock_changes_of ex nw) = None"
      "\<forall>p. tbl_products db' p =
           map_option (add_to_stock (dict_get ex p 0 - dict_get nw p 0)) (tbl_products db p)"
      "\<exists>ord'. tbl_orders db' = (tbl_orders db)(oid \<mapsto> ord')"
      "tbl_order_products db' = filter (\<lambda>l. op_order_id l \<noteq> oid) (tbl_order_products db) @ L"
      "next_order_id db' = next_order_id db"
    unfolding items_def L_def ex_def nw_def by blast
  then show ?thesis
  proof cases
    case failed
    with ok show ?thesis by (simp add: conserves_refl)
  next
    case committed
    note f = committed
    note k = stock_ledger_okD[OF ok]
    from f(4) obtain ord' where orders: "tbl_orders db' = (tbl_orders db)(oid \<mapsto> ord')" by blast
    have dist: "distinct (map fst items)"
      using plain by (simp add: request_plain_def items_def item_pair_def[abs_def] comp_def)
    have nonneg: "list_all (\<lambda>u. 0 \<le> snd u) items"
      using plain by (simp add: request_plain_def items_def item_pair_def list_all_iff)
    have below: "oid < next_order_id db"
    proof (rule ccontr)
      assume "\<not> oid < next_order_id db"
      then have "tbl_orders db oid = None" by (intro k(3)) simp
      with f(1) show False by simp
    qed
    have new_q: "dict_get nw p 0 = pairs_quantity p items" for p
      unfolding nw_def new_map_of_item_pair items_def[symmetric]
      by (rule dict_get_dict_of_distinct[OF dist])
    have old_q: "dict_get ex p 0 = line_quantity p (order_lines db oid)" for p
    proof -
      have "map fst (map line_pair (order_lines db oid)) = map op_product_id (order_lines db oid)"
        by (simp add: line_pair_def)
      with k(4)[of oid] have "distinct (map fst (map line_pair (order_lines db oid)))"
        by (simp only:)
      then show ?thesis
        unfolding ex_def existing_map_of_line_pair line_quantity_pairs
        by (rule dict_get_dict_of_distinct)
    qed
    have lines': "order_lines db' oid' = (if oid' = oid then L else order_lines db oid')" for oid'
      by (auto simp: order_lines_def f(5) L_def intro: filter_cong)
    have enough: "dict_get nw p 0 - dict_get ex p 0 \<le> p_stock pr"
      if pr: "tbl_products db p = Some pr" for p pr
    proof (cases "dict_get nw p 0 \<le> dict_get ex p 0")
      case True
      with k(5)[OF pr] show ?thesis by simp
    next
      case False
      then have more: "dict_get ex p 0 < dict_get nw p 0" by simp
      have "map_of (stock_changes_of ex nw) p = Some (dict_get nw p 0 - dict_get ex p 0)"
      proof (cases "map_of ex p")
        case None
        then have e0: "dict_get ex p 0 = 0" by (simp add: dict_get_def)
        with more obtain q where "map_of nw p = Some q"
          by (cases "map_of nw p") (auto simp: dict_get_def)
        with None e0 show ?thesis
          by (simp add: stock_changes_map_of ex_def nw_def dict_get_def)
      next
        case (Some old)
        then have "dict_get ex p 0 = old" by (simp add: dict_get_def)
        with Some more show ?thesis
          by (simp add: stock_changes_map_of ex_def nw_def)
      qed
      then have "(p, dict_get nw p 0 - dict_get ex p 0) \<in> set (stock_changes_of ex nw)"
        by (rule map_of_SomeD)
      with f(2) pr more show ?thesis
        by (fastforce simp: validate_changes_None list_all_iff)
    qed
    have ok': "stock_ledger_ok db'"
    proof (rule stock_ledger_okI)
      show "list_all (\<lambda>l. op_order_id l < next_order_id db') (tbl_order_products db')"
        using k(1) below by (fastforce simp: f(5) f(6) L_def list_all_iff dest!: mk_lines_member)
      show "list_all (\<lambda>l. 0 \<le> op_quantity l) (tbl_order_products db')"
        using k(2) nonneg by (fastforce simp: f(5) L_def list_all_iff dest!: mk_lines_member)
      show "tbl_orders db' k = None" if "next_order_id db' \<le> k" for k
        using that k(3)[of k] below by (simp add: orders f(6))
      show "distinct (map op_product_id (order_lines db' oid'))" for oid'
        using k(4)[of oid'] dist by (simp add: lines' L_def)
      show "0 \<le> p_stock pr'" if "tbl_products db' p = Some pr'" for p pr'
      proof -
        from that f(3) obtain pr where pr: "tbl_products db p = Some pr"
          and pr': "pr' = add_to_stock (dict_get ex p 0 - dict_get nw p 0) pr"
          by (cases "tbl_products db p") auto
        from enough[OF pr] show ?thesis by (simp add: pr' add_to_stock_def)
      qed
    qed
    have res: "reserved db p + pairs_quantity p items =
               reserved db' p + line_quantity p (order_lines db oid)" for p
    proof -
      have "reserved db p =
           line_quantity p (filter (\<lambda>l. tbl_orders db' (op_order_id l) \<noteq> None)
                              (filter (\<lambda>l. op_order_id l \<noteq> oid) (tbl_order_products db))) +
           line_quantity p (order_lines db oid)"
        using f(1) by (intro reserved_split) (simp_all add: orders)
      moreover have "filter (\<lambda>l. tbl_orders db' (op_order_id l) \<noteq> None) L = L"
        unfolding L_def by (rule filter_mk_lines_by_order) (simp add: orders)
      ultimately show ?thesis
        by (simp add: reserved_def f(5)) (simp add: L_def)
    qed
    have "\<exists>pr'. tbl_products db' p = Some pr' \<and>
           p_stock pr' + reserved db' p = p_stock pr + reserved db p"
      if "tbl_products db p = Some pr" for p pr
      using that f(3) res[of p] by (simp add: add_to_stock_def new_q old_q)
    with ok' show ?thesis by (simp add: conserves_def)
  qed
qed

lemma conserves_trans:
  assumes "conserves db db'" and "conserves db' db''"
  shows "conserves db db''"
  unfolding conserves_def
proof (intro conjI allI impI)
  from assms(2) show "stock_ledger_ok db''" by (simp add: conserves_def)
next
  fix p pr
  assume "tbl_products db p = Some pr"
  with assms(1) obtain pr' where 1: "tbl_products db' p = Some pr'"
    and 2: "p_stock pr' + reserved db' p = p_stock pr + reserved db p"
    unfolding conserves_def by blast
  from assms(2) 1 obtain pr'' where 3: "tbl_products db'' p = Some pr''"
    and 4: "p_stock pr'' + reserved db'' p = p_stock pr' + reserved db' p"
    unfolding conserves_def by blast
  from 2 3 4 show "\<exists>pr'. tbl_products db'' p = Some pr' \<and>
           p_stock pr' + reserved db'' p = p_stock pr + reserved db p"
    by simp
qed

lemma perform_conserves:
  assumes "stock_ledger_ok db" and "operation_plain op"
  shows "conserves db (fst (perform fmul ts op (db, idx)))"
proof (cases op)
  case (CreateOrder now order)
  obtain res db' idx' where r: "crud_create_order fmul ts now db idx order = (res, db', idx')"
    by (cases "crud_create_order fmul ts now db idx order") auto
  from create_order_conserves[OF assms(1) _ r] assms(2) CreateOrder r show ?thesis by simp
next
  case (UpdateOrder oid order)
  obtain res db' idx' where r: "crud_update_order fmul ts db idx oid order = (res, db', idx')"
    by (cases "crud_update_order fmul ts db idx oid order") auto
  from update_order_conserves[OF assms(1) _ r] assms(2) UpdateOrder r show ?thesis by simp
next
  case (DeleteOrder oid)
  obtain res db' idx' where r: "crud_delete_order db idx oid = (res, db', idx')"
    by (cases "crud_delete_order db idx oid") auto
  from delete_order_conserves[OF assms(1) r] DeleteOrder r show ?thesis by simp
qed

lemma run_conserves:
  "stock_ledger_ok db \<Longrightarrow> list_all operation_plain ops \<Longrightarrow>
   conserves db (fst (run fmul ts ops (db, idx)))"
proof (induction ops arbitrary: db idx)
  case Nil
  then show ?case by (simp add: run_def conserves_refl)
next
  case (Cons op ops)
  obtain db' idx' where st: "perform fmul ts op (db, idx) = (db', idx')"
    by (cases "perform fmul ts op (db, idx)") auto
  from perform_conserves[of db op fmul ts idx] Cons.prems st
  have 1: "conserves db db'" by simp
  then have "stock_ledger_ok db'" by (simp add: conserves_def)
  from Cons.IH[OF this, of idx'] Cons.prems
  have 2: "conserves db' (fst (run fmul ts ops (db', idx')))" by simp
  have "run fmul ts (op # ops) (db, idx) = run fmul ts ops (db', idx')"
    by (simp add: run_def st)
  with conserves_trans[OF 1 2] show ?case by simp
qed

text \<open>
  C1. Two runs from a shop that holds 5 units of product 1 and no order, every requested
  quantity above 0. In the first, a create-order asks 3 units of product 1 in each of its two
  lines: each line passes the stock check against the stock of 5, both are subtracted, and
  the stock is left at -1 (with 6 units reserved). In the second, an order of 2 units is
  updated to the lines of quantity 1 and quantity 2 of product 1: the dictionary of the new
  lines keeps the quantity 2 only, so the stock stays at 3, and both lines are stored, so 3
  units are reserved: stock plus reserved quantity has gone from 5 to 6.
\<close>

theorem conservation_fails_for_repeated_products:
  "map_option p_stock (tbl_products shop 1) = Some 5 \<and> reserved shop 1 = 0 \<and>
   map_option p_stock (tbl_products (fst twice_run) 1) = Some (- 1) \<and>
   reserved (fst twice_run) 1 = 6 \<and>
   map_option p_stock (tbl_products (fst repeat_run) 1) = Some 3 \<and>
   reserved (fst repeat_run) 1 = 3"
  by (simp add: twice_run_def repeat_run_def run_def reserved_def
      crud_create_order_def crud_update_order_def
      shop_def shop_products_def request_def line_def
      reserve_line_def add_order_product_def adjust_stock_def
      index_order_in_meilisearch_def order_lines_def
      existing_map_of_def new_map_of_def dict_of_def stock_changes_of_def
      changes_existing_def changes_new_def dict_get_def line_quantity_def)

text \<open>
  A requested quantity below 0 is accepted (no operation checks the sign). The sum is kept,
  but the stock can fall below 0: an order of -4 units of product 2 raises its stock from 1
  to 5, a second order takes the 5 units, and deleting the first order leaves the stock at
  -4 with 5 units reserved.
\<close>

lemma negative_quantity_run:
  "map_option p_stock (tbl_products shop 2) = Some 1 \<and> reserved shop 2 = 0 \<and>
   map_option p_stock (tbl_products (fst negative_run) 2) = Some (- 4) \<and>
   reserved (fst negative_run) 2 = 5"
  by (simp add: negative_run_def run_def reserved_def
      crud_create_order_def crud_delete_order_def restock_line_def
      shop_def shop_products_def request_def line_def
      reserve_line_def add_order_product_def adjust_stock_def
      index_order_in_meilisearch_def order_lines_def
      existing_map_of_def new_map_of_def dict_of_def stock_changes_of_def
      changes_existing_def changes_new_def dict_get_def line_quantity_def)

text \<open>
  Where the code does keep the sum and the sign. Take any sequence of create-order,
  update-order and delete-order operations, run one at a time, in which no request names a
  product in two lines and no requested quantity is negative, from a database where the order
  ids lie below the counter, no stock and no stored quantity is negative and no order has two
  lines for one product. Then every product that has a row keeps it, its stock plus the
  quantities that the lines of the live orders hold of it is after the sequence what it was
  before, and its stock is not negative.
\<close>

lemma stock_conserved_by_plain_operations:
  assumes "stock_ledger_ok db"
    and "list_all operation_plain ops"
    and "tbl_products db p = Some pr"
  shows "\<exists>pr'. tbl_products (fst (run fmul ts ops (db, idx))) p = Some pr' \<and>
           p_stock pr' + reserved (fst (run fmul ts ops (db, idx))) p = p_stock pr + reserved db p \<and>
           0 \<le> p_stock pr'"
proof -
  from run_conserves[OF assms(1) assms(2), of fmul ts idx]
  have c: "conserves db (fst (run fmul ts ops (db, idx)))" .
  with assms(3) obtain pr' where 1: "tbl_products (fst (run fmul ts ops (db, idx))) p = Some pr'"
    and 2: "p_stock pr' + reserved (fst (run fmul ts ops (db, idx))) p = p_stock pr + reserved db p"
    unfolding conserves_def by blast
  from c have "stock_ledger_ok (fst (run fmul ts ops (db, idx)))" by (simp add: conserves_def)
  from stock_ledger_okD(5)[OF this 1] have "0 \<le> p_stock pr'" .
  with 1 2 show ?thesis by simp
qed

lemma stock_conserved_by_plain_operations_example:
  "stock_ledger_ok shop \<and> list_all operation_plain plain_ops \<and>
   map_option p_stock (tbl_products shop 1) = Some 5 \<and> reserved shop 1 = 0 \<and>
   map_option p_stock (tbl_products (fst (run (*) id plain_ops (shop, Map.empty))) 1) = Some 1 \<and>
   reserved (fst (run (*) id plain_ops (shop, Map.empty))) 1 = 4"
proof -
  have h1: "stock_ledger_ok shop"
    by (auto simp: stock_ledger_ok_def shop_def shop_products_def order_lines_def split: if_splits)
  have h2: "list_all operation_plain plain_ops"
    by (simp add: plain_ops_def request_plain_def request_def line_def)
  have h3: "tbl_products shop 1 =
              Some \<lparr>p_name = ''P1'', p_description = None, p_price = 10, p_stock = 5\<rparr>"
    by (simp add: shop_def shop_products_def)
  have h4: "reserved shop 1 = 0"
    by (simp add: reserved_def shop_def)
  have h5: "reserved (fst (run (*) id plain_ops (shop, Map.empty))) 1 = 4"
    by (simp add: plain_ops_def run_def reserved_def
      crud_create_order_def crud_update_order_def
      shop_def shop_products_def request_def line_def
      reserve_line_def add_order_product_def adjust_stock_def
      index_order_in_meilisearch_def order_lines_def
      existing_map_of_def new_map_of_def dict_of_def stock_changes_of_def
      changes_existing_def changes_new_def dict_get_def line_quantity_def)
  from stock_conserved_by_plain_operations[OF h1 h2 h3, of "(*)" id Map.empty] h1 h2 h3 h4 h5
  show ?thesis by auto
qed

end
